theory Spec2Isabelle
  imports Main
begin

section \<open>CodeClash rooms gateway: data model\<close>

text \<open>
  The development embeds \<^verbatim>\<open>RoomsGateway\<close> (api-server, rooms.gateway.ts), the
  socket.io gateway of the game rooms. The gateway keeps no state of its own: rooms,
  members and the name-to-socket registry live in \<^verbatim>\<open>RoomsService\<close>, per-connection
  data lives in \<^verbatim>\<open>socket.data\<close>, and timers live in the JavaScript runtime. All of
  it is one explicit \<open>world\<close> record that every handler takes and returns.
  Identifiers are strings, as in the source; \<^verbatim>\<open>undefined\<close> is \<open>None\<close>.
\<close>

type_synonym roomId = string
type_synonym userName = string
type_synonym socketId = string
type_synonym item = string
type_synonym handle = nat
type_synonym problems = "string list"

datatype room_state = Waiting | Playing | Over

text \<open>Exceptions a handler can end with, and the status values handlers return.\<close>

datatype error = RoomNotFound | RoomFull | IllegalTransition | TypeError

datatype status = Success | NotAMember | ItemNotOwned

text \<open>\<^verbatim>\<open>RoomsUserDto\<close>, as the gateway builds it in \<^verbatim>\<open>enterLobby\<close> and \<^verbatim>\<open>enterRoom\<close>
  (the latter leaves \<^verbatim>\<open>passed\<close> out).\<close>

record RoomsUserDto =
  socketId :: socketId
  userName :: userName
  ready :: bool
  passed :: "bool option"
  itemList :: "(item \<times> nat) list"

text \<open>\<^verbatim>\<open>itemList\<close> maps an item kind to its count; it is kept as an association list
  with one entry per kind.\<close>

definition itemCount :: "(item \<times> nat) list \<Rightarrow> item \<Rightarrow> nat" where
  "itemCount xs it = (case map_of xs it of None \<Rightarrow> 0 | Some n \<Rightarrow> n)"

definition setItemCount :: "item \<Rightarrow> nat \<Rightarrow> (item \<times> nat) list \<Rightarrow> (item \<times> nat) list" where
  "setItemCount it n xs = (it, n) # filter (\<lambda>p. fst p \<noteq> it) xs"

text \<open>The fields of \<^verbatim>\<open>socket.data\<close> the gateway reads and writes, and the socket.io rooms
  the socket has joined (\<^verbatim>\<open>client.join\<close>, \<^verbatim>\<open>client.leave\<close>).\<close>

record socket_data =
  data_user :: "userName option"
  data_roomId :: "roomId option"
  data_passed :: bool
  joined :: "roomId set"

record room =
  roomName :: string
  capacity :: nat
  state :: room_state
  users :: "RoomsUserDto list"
  timer :: "handle option"
  itemCreator :: "handle option"

text \<open>Outbound messages. \<open>InRoom r\<close> is \<^verbatim>\<open>server.in(r).emit\<close> (every socket of the
  room), \<open>ToRoom r c\<close> is \<^verbatim>\<open>client.to(r).emit\<close> (the room without the sender \<open>c\<close>),
  \<open>ToSocket s\<close> is \<^verbatim>\<open>socket.emit\<close>. The texts of the Korean messages are kept as
  their parameters.\<close>

datatype target =
    InRoom "roomId option"
  | ToRoom "roomId option" socketId
  | ToSocket socketId

datatype message =
    ExitMessage userName roomId
  | EnterMessage userName string

datatype event =
    E_connection_fail string
  | E_user_enter_lobby userName
  | E_user_exit_lobby userName "message option"
  | E_user_create_room "room option" userName
  | E_user_enter_room userName message
  | E_user_exit_room userName "message option"
  | E_change_user_count "roomId option" "nat option"
  | E_delete_room "roomId option"
  | E_ready userName "bool option"
  | E_kick "roomId option" userName
  | E_item status userName item
  | E_create_item item
  | E_countdown
  | E_game_over
  | E_room_game_over "roomId option"
  | E_start problems
  | E_room_start "roomId option" room_state

record world =
  rooms :: "roomId \<rightharpoonup> room"
  socketIds :: "userName \<rightharpoonup> socketId"
  sockets :: "socketId \<rightharpoonup> socket_data"
  timeouts :: "handle \<rightharpoonup> roomId option"
  intervals :: "handle \<rightharpoonup> roomId option"
  nextHandle :: handle
  starting :: "roomId option list"
  handshaking :: "socketId list"
  emitted :: "(target \<times> event) list"

text \<open>
  \<open>timeouts\<close> are the pending \<^verbatim>\<open>setTimeout\<close> callbacks and \<open>intervals\<close> the active
  \<^verbatim>\<open>setInterval\<close> callbacks, each with the \<^verbatim>\<open>roomId\<close> its closure captured;
  \<open>starting\<close> holds the calls of \<^verbatim>\<open>start\<close> that are suspended at their
  \<^verbatim>\<open>await\<close>, and \<open>handshaking\<close> the sockets whose \<^verbatim>\<open>handleConnection\<close> is
  suspended at its \<^verbatim>\<open>await\<close>; \<open>emitted\<close> is the log of outbound messages, oldest
  first.
\<close>

datatype reply = Threw error | Done | Ack status | AckRoom status "roomId option"

datatype handshake = NoToken | InvalidToken | TokenVerified

text \<open>The constants file is not part of the sources; the gateway uses \<^verbatim>\<open>LOBBY_ID\<close> and
  the literal \<^verbatim>\<open>'lobby'\<close> for the same socket.io room.\<close>

definition LOBBY_ID :: roomId where
  "LOBBY_ID = ''lobby''"

subsection \<open>Runtime primitives\<close>

definition emit :: "target \<Rightarrow> event \<Rightarrow> world \<Rightarrow> world" where
  "emit t e w = w\<lparr>emitted := emitted w @ [(t, e)]\<rparr>"

definition updSocket :: "socketId \<Rightarrow> (socket_data \<Rightarrow> socket_data) \<Rightarrow> world \<Rightarrow> world" where
  "updSocket s f w =
     (case sockets w s of
        None \<Rightarrow> w
      | Some d \<Rightarrow> w\<lparr>sockets := (sockets w)(s \<mapsto> f d)\<rparr>)"

definition updRoom :: "roomId option \<Rightarrow> (room \<Rightarrow> room) \<Rightarrow> world \<Rightarrow> world" where
  "updRoom rid f w =
     (case rid of
        None \<Rightarrow> w
      | Some r \<Rightarrow>
          (case rooms w r of
             None \<Rightarrow> w
           | Some rm \<Rightarrow> w\<lparr>rooms := (rooms w)(r \<mapsto> f rm)\<rparr>))"

text \<open>\<^verbatim>\<open>clearTimeout\<close> and \<^verbatim>\<open>clearInterval\<close>: the handle stops being pending; an
  \<^verbatim>\<open>undefined\<close> or unknown handle is ignored.\<close>

definition clearTimeout :: "handle option \<Rightarrow> world \<Rightarrow> world" where
  "clearTimeout ho w =
     (case ho of None \<Rightarrow> w | Some h \<Rightarrow> w\<lparr>timeouts := (timeouts w)(h := None)\<rparr>)"

definition clearInterval :: "handle option \<Rightarrow> world \<Rightarrow> world" where
  "clearInterval ho w =
     (case ho of None \<Rightarrow> w | Some h \<Rightarrow> w\<lparr>intervals := (intervals w)(h := None)\<rparr>)"

text \<open>JavaScript truthiness of an optional string: \<^verbatim>\<open>undefined\<close> and \<^verbatim>\<open>''\<close> are falsy.\<close>

definition truthy :: "string option \<Rightarrow> bool" where
  "truthy rid = (case rid of None \<Rightarrow> False | Some r \<Rightarrow> r \<noteq> [])"

section \<open>The rooms service\<close>

text \<open>
  \<^verbatim>\<open>rooms.service.ts\<close> is not among the sources: only its calls in the gateway are.
  Each operation below is written from the design document of the repository
  (sections 3 and 4), under the name the gateway calls it by. The Lobby is the entry
  \<open>LOBBY_ID\<close> of the directory, without capacity limit and never removed.
\<close>

definition roomsService_getGameRoom :: "world \<Rightarrow> roomId option \<Rightarrow> room option" where
  \<comment> \<open>Modelled from the spec: rooms.service.ts is missing; \<^verbatim>\<open>get(roomId) -> Room | NotFound\<close>.\<close>
  "roomsService_getGameRoom w rid = (case rid of None \<Rightarrow> None | Some r \<Rightarrow> rooms w r)"

definition roomsService_roomInfo :: "world \<Rightarrow> roomId option \<Rightarrow> room option" where
  \<comment> \<open>Modelled from the spec: rooms.service.ts is missing; the room detail, or nothing
      for a room that is not in the directory.\<close>
  "roomsService_roomInfo w rid = roomsService_getGameRoom w rid"

definition roomsService_roomUserCount :: "world \<Rightarrow> roomId option \<Rightarrow> nat option" where
  \<comment> \<open>Modelled from the spec: rooms.service.ts is missing; the member count of the room.\<close>
  "roomsService_roomUserCount w rid =
     (case roomsService_getGameRoom w rid of
        None \<Rightarrow> None
      | Some rm \<Rightarrow> Some (length (users rm)))"

definition roomsService_roomSocketIdList :: "world \<Rightarrow> roomId option \<Rightarrow> socketId list" where
  \<comment> \<open>Modelled from the spec: rooms.service.ts is missing; the connections of the members.\<close>
  "roomsService_roomSocketIdList w rid =
     (case roomsService_getGameRoom w rid of
        None \<Rightarrow> []
      | Some rm \<Rightarrow> map socketId (users rm))"

definition roomsService_isConnectedUser :: "world \<Rightarrow> userName \<Rightarrow> bool" where
  \<comment> \<open>Modelled from the spec: rooms.service.ts is missing; the identity maps to a live
      connection.\<close>
  "roomsService_isConnectedUser w name = (socketIds w name \<noteq> None)"

definition roomsService_registerSocketId :: "userName \<Rightarrow> socketId \<Rightarrow> world \<Rightarrow> world" where
  \<comment> \<open>Modelled from the spec: rooms.service.ts is missing; \<^verbatim>\<open>register\<close> records the
      mapping (the gateway has checked \<^verbatim>\<open>isConnectedUser\<close> before).\<close>
  "roomsService_registerSocketId name s w = w\<lparr>socketIds := (socketIds w)(name \<mapsto> s)\<rparr>"

definition roomsService_deleteSocketId :: "userName \<Rightarrow> world \<Rightarrow> world" where
  \<comment> \<open>Modelled from the spec: rooms.service.ts is missing; \<^verbatim>\<open>unregister\<close> removes the
      mapping and is idempotent.\<close>
  "roomsService_deleteSocketId name w = w\<lparr>socketIds := (socketIds w)(name := None)\<rparr>"

definition roomsService_getSocketId :: "world \<Rightarrow> userName \<Rightarrow> socketId option" where
  \<comment> \<open>Modelled from the spec: rooms.service.ts is missing; \<^verbatim>\<open>lookupConnection\<close>.\<close>
  "roomsService_getSocketId w name = socketIds w name"

definition roomsService_createRoom :: "string \<Rightarrow> nat \<Rightarrow> roomId \<Rightarrow> world \<Rightarrow> world" where
  \<comment> \<open>Modelled from the spec: rooms.service.ts is missing; the room starts in
      \<open>Waiting\<close> with zero members. The fresh identifier the service allocates is the
      parameter \<open>newId\<close>.\<close>
  "roomsService_createRoom name cap newId w =
     w\<lparr>rooms := (rooms w)(newId \<mapsto>
          \<lparr>roomName = name, capacity = cap, state = Waiting, users = [],
           timer = None, itemCreator = None\<rparr>)\<rparr>"

definition removeUser :: "userName \<Rightarrow> room \<Rightarrow> room" where
  "removeUser name rm = rm\<lparr>users := filter (\<lambda>u. userName u \<noteq> name) (users rm)\<rparr>"

definition roomsService_exitRoom :: "roomId option \<Rightarrow> userName \<Rightarrow> world \<Rightarrow> bool \<times> world" where
  \<comment> \<open>Modelled from the spec: rooms.service.ts is missing; \<^verbatim>\<open>exit\<close> removes the
      member; a room that becomes empty is removed from the directory, its timers are
      cancelled and the result is false.\<close>
  "roomsService_exitRoom rid name w =
     (case rid of
        None \<Rightarrow> (False, w)
      | Some r \<Rightarrow>
          (case rooms w r of
             None \<Rightarrow> (False, w)
           | Some rm \<Rightarrow>
               if users (removeUser name rm) = [] \<and> r \<noteq> LOBBY_ID
               then (False,
                     (clearInterval (itemCreator rm) (clearTimeout (timer rm) w))
                       \<lparr>rooms := (rooms w)(r := None)\<rparr>)
               else (users (removeUser name rm) \<noteq> [],
                     w\<lparr>rooms := (rooms w)(r \<mapsto> removeUser name rm)\<rparr>)))"

definition roomsService_enterRoom ::
  "roomId option \<Rightarrow> roomId option \<Rightarrow> RoomsUserDto \<Rightarrow> world \<Rightarrow> error + world" where
  \<comment> \<open>Modelled from the spec: rooms.service.ts is missing; \<^verbatim>\<open>enter\<close> fails with
      \<open>RoomNotFound\<close> or \<open>RoomFull\<close> (count at least capacity; the Lobby has no limit),
      and otherwise removes the member from the previous room and adds it to the new
      one in one step. The gateway ignores the result, so a failure is an exception.\<close>
  "roomsService_enterRoom rid prev m w =
     (case rid of
        None \<Rightarrow> Inl RoomNotFound
      | Some r \<Rightarrow>
          (case rooms w r of
             None \<Rightarrow> Inl RoomNotFound
           | Some rm \<Rightarrow>
               if r \<noteq> LOBBY_ID \<and> capacity rm \<le> length (users rm) then Inl RoomFull
               else Inr (updRoom rid (\<lambda>x. x\<lparr>users := users x @ [m]\<rparr>)
                           (updRoom prev (removeUser (userName m)) w))))"

definition roomsService_switchReady ::
  "roomId option \<Rightarrow> userName \<Rightarrow> world \<Rightarrow> bool option \<times> world" where
  \<comment> \<open>Modelled from the spec: rooms.service.ts is missing; \<^verbatim>\<open>setReady\<close> toggles the
      member's readiness and returns the new value.\<close>
  "roomsService_switchReady rid name w =
     (case roomsService_getGameRoom w rid of
        None \<Rightarrow> (None, w)
      | Some rm \<Rightarrow>
          (case find (\<lambda>u. userName u = name) (users rm) of
             None \<Rightarrow> (None, w)
           | Some u \<Rightarrow>
               (Some (\<not> ready u),
                updRoom rid
                  (\<lambda>x. x\<lparr>users := map (\<lambda>v. if userName v = name
                                             then v\<lparr>ready := \<not> ready v\<rparr> else v) (users x)\<rparr>)
                  w)))"

definition roomsService_allUserReady :: "world \<Rightarrow> roomId option \<Rightarrow> bool" where
  \<comment> \<open>Modelled from the spec: rooms.service.ts is missing; \<^verbatim>\<open>allReady\<close> is true iff
      every member is ready and the membership count is at least 2.\<close>
  "roomsService_allUserReady w rid =
     (case roomsService_getGameRoom w rid of
        None \<Rightarrow> False
      | Some rm \<Rightarrow> list_all ready (users rm) \<and> 2 \<le> length (users rm))"

definition roomsService_allUserPassed :: "world \<Rightarrow> roomId option \<Rightarrow> bool" where
  \<comment> \<open>Modelled from the spec: rooms.service.ts is missing; \<^verbatim>\<open>allPassed\<close> is true iff
      every member's per-round passed flag is set. The flag is the one of the member's
      connection: \<^verbatim>\<open>client.data.passed = true\<close> in \<^verbatim>\<open>pass\<close> is the only place the
      gateway marks a member passed.\<close>
  "roomsService_allUserPassed w rid =
     (case roomsService_getGameRoom w rid of
        None \<Rightarrow> False
      | Some rm \<Rightarrow>
          list_all (\<lambda>u. case sockets w (socketId u) of
                           None \<Rightarrow> False
                         | Some d \<Rightarrow> data_passed d) (users rm))"

definition roomsService_getTimer :: "world \<Rightarrow> roomId option \<Rightarrow> handle option" where
  \<comment> \<open>Modelled from the spec: rooms.service.ts is missing; the room's optional active
      countdown handle.\<close>
  "roomsService_getTimer w rid =
     (case roomsService_getGameRoom w rid of None \<Rightarrow> None | Some rm \<Rightarrow> timer rm)"

definition roomsService_setTimer :: "roomId option \<Rightarrow> handle \<Rightarrow> world \<Rightarrow> world" where
  \<comment> \<open>Modelled from the spec: rooms.service.ts is missing; stores the countdown handle.\<close>
  "roomsService_setTimer rid h w = updRoom rid (\<lambda>x. x\<lparr>timer := Some h\<rparr>) w"

definition roomsService_setItemCreator :: "roomId option \<Rightarrow> handle \<Rightarrow> world \<Rightarrow> world" where
  \<comment> \<open>Modelled from the spec: rooms.service.ts is missing; stores the item-spawn handle.\<close>
  "roomsService_setItemCreator rid h w = updRoom rid (\<lambda>x. x\<lparr>itemCreator := Some h\<rparr>) w"

definition roomsService_changeRoomState ::
  "roomId option \<Rightarrow> room_state \<Rightarrow> world \<Rightarrow> error + world" where
  \<comment> \<open>Modelled from the spec: rooms.service.ts is missing; \<^verbatim>\<open>changeState\<close> moves
      \<open>Waiting\<close> to \<open>Playing\<close> or \<open>Playing\<close> to \<open>Over\<close>; any other transition fails
      loudly.\<close>
  "roomsService_changeRoomState rid st w =
     (case roomsService_getGameRoom w rid of
        None \<Rightarrow> Inl RoomNotFound
      | Some rm \<Rightarrow>
          if (state rm = Waiting \<and> st = Playing) \<or> (state rm = Playing \<and> st = Over)
          then Inr (updRoom rid (\<lambda>x. x\<lparr>state := st\<rparr>) w)
          else Inl IllegalTransition)"

definition roomsService_gameOver :: "roomId option \<Rightarrow> world \<Rightarrow> world" where
  \<comment> \<open>Modelled from the spec: rooms.service.ts is missing; the state part of
      \<^verbatim>\<open>endRound\<close>: cancels both the countdown and the item-spawn timers and moves the
      room to \<open>Over\<close>.\<close>
  "roomsService_gameOver rid w =
     (case roomsService_getGameRoom w rid of
        None \<Rightarrow> w
      | Some rm \<Rightarrow>
          updRoom rid (\<lambda>x. x\<lparr>state := Over, timer := None, itemCreator := None\<rparr>)
            (clearInterval (itemCreator rm) (clearTimeout (timer rm) w)))"

definition roomsService_kick ::
  "roomId option \<Rightarrow> userName \<Rightarrow> userName \<Rightarrow> world \<Rightarrow> status \<times> world" where
  \<comment> \<open>Modelled from the spec: rooms.service.ts is missing; \<^verbatim>\<open>kick\<close> fails with
      \<open>NotAMember\<close> when the caller or the target is not a member of the room (any
      member may kick); otherwise it removes the target as \<^verbatim>\<open>exit\<close> does and clears
      the current-room tracking of the target's connection.\<close>
  "roomsService_kick rid by tgt w =
     (case roomsService_getGameRoom w rid of
        None \<Rightarrow> (NotAMember, w)
      | Some rm \<Rightarrow>
          if by \<in> userName ` set (users rm) \<and> tgt \<in> userName ` set (users rm)
          then (Success,
                (case socketIds w tgt of
                   None \<Rightarrow> snd (roomsService_exitRoom rid tgt w)
                 | Some s \<Rightarrow>
                     updSocket s (\<lambda>d. d\<lparr>data_roomId := None\<rparr>)
                       (snd (roomsService_exitRoom rid tgt w))))
          else (NotAMember, w))"

definition roomsService_useItem ::
  "roomId option \<Rightarrow> userName \<Rightarrow> item \<Rightarrow> world \<Rightarrow> status \<times> world" where
  \<comment> \<open>Modelled from the spec: rooms.service.ts is missing; \<^verbatim>\<open>useItem\<close> fails with
      \<open>ItemNotOwned\<close> if the inventory lacks the item (\<open>NotAMember\<close> without a
      membership) and otherwise decrements its count; the effect of an item is opaque.\<close>
  "roomsService_useItem rid name it w =
     (case roomsService_getGameRoom w rid of
        None \<Rightarrow> (NotAMember, w)
      | Some rm \<Rightarrow>
          (case find (\<lambda>u. userName u = name) (users rm) of
             None \<Rightarrow> (NotAMember, w)
           | Some u \<Rightarrow>
               if itemCount (itemList u) it = 0 then (ItemNotOwned, w)
               else (Success,
                     updRoom rid
                       (\<lambda>x. x\<lparr>users := map (\<lambda>v. if userName v = name
                              then v\<lparr>itemList :=
                                     setItemCount it (itemCount (itemList v) it - 1) (itemList v)\<rparr>
                              else v)
                              (users x)\<rparr>)
                       w)))"

definition roomsService_assignItem :: "roomId option \<Rightarrow> userName \<Rightarrow> item \<Rightarrow> world \<Rightarrow> world" where
  \<comment> \<open>Modelled from the spec: rooms.service.ts is missing; \<^verbatim>\<open>assignItem\<close> adds the
      item to the member's inventory. The item the (unspecified) policy chooses is the
      parameter \<open>it\<close>.\<close>
  "roomsService_assignItem rid name it w =
     updRoom rid
       (\<lambda>x. x\<lparr>users := map (\<lambda>v. if userName v = name
              then v\<lparr>itemList :=
                     setItemCount it (Suc (itemCount (itemList v) it)) (itemList v)\<rparr>
              else v)
              (users x)\<rparr>)
       w"

section \<open>The gateway\<close>

text \<open>
  The handlers of \<^verbatim>\<open>RoomsGateway\<close>, statement by statement. A handler takes the
  identifier of the client socket; reading \<^verbatim>\<open>client.data.user.name\<close> without a user
  throws a \<open>TypeError\<close>, as does a method call on what \<^verbatim>\<open>this.socket(id)\<close> returns
  when that is \<^verbatim>\<open>undefined\<close>. The result is the handler's reply and the world it
  leaves, also when it throws after a service call has already changed the world.
\<close>

text \<open>
  The private helper \<^verbatim>\<open>socket(id)\<close> is \<^verbatim>\<open>this.server.sockets[id]\<close>. The gateway uses
  \<^verbatim>\<open>socket.data\<close>, so it runs on socket.io 4, where \<^verbatim>\<open>sockets\<close> of a namespace is a
  \<^verbatim>\<open>Map\<close>: the bracket access reads a property of the \<^verbatim>\<open>Map\<close> object, not an entry,
  and is \<^verbatim>\<open>undefined\<close> for every socket identifier.
\<close>

definition socket :: "world \<Rightarrow> socketId option \<Rightarrow> socket_data option" where
  "socket w sid = None"

definition clientUser :: "world \<Rightarrow> socketId \<Rightarrow> (socket_data \<times> userName) option" where
  "clientUser w c =
     (case sockets w c of
        None \<Rightarrow> None
      | Some d \<Rightarrow> (case data_user d of None \<Rightarrow> None | Some name \<Rightarrow> Some (d, name)))"

definition handleDisconnect :: "socketId \<Rightarrow> world \<Rightarrow> world" where
  "handleDisconnect s w =
     (case clientUser w s of
        None \<Rightarrow> w
      | Some (d, name) \<Rightarrow>
          (let w1 = snd (roomsService_exitRoom (data_roomId d) name w);
               w2 = roomsService_deleteSocketId name w1
           in if truthy (data_roomId d)
              then if data_roomId d = Some LOBBY_ID
                   then emit (InRoom (data_roomId d))
                          (E_user_exit_lobby name
                             (Some (ExitMessage name (the (data_roomId d))))) w2
                   else if roomsService_roomInfo w2 (data_roomId d) \<noteq> None
                   then emit (InRoom (data_roomId d))
                          (E_user_exit_room name
                             (Some (ExitMessage name (the (data_roomId d))))) w2
                   else emit (InRoom (Some ''lobby'')) (E_delete_room (data_roomId d)) w2
              else w2))"

text \<open>\<^verbatim>\<open>socket.disconnect()\<close>: the server runs \<^verbatim>\<open>handleDisconnect\<close> and forgets the
  socket; on a socket that is already disconnected it does nothing.\<close>

definition socket_disconnect :: "socketId \<Rightarrow> world \<Rightarrow> world" where
  "socket_disconnect s w =
     (if sockets w s = None then w
      else (handleDisconnect s w)\<lparr>sockets := (sockets (handleDisconnect s w))(s := None)\<rparr>)"

text \<open>
  \<^verbatim>\<open>handleConnection\<close> is \<^verbatim>\<open>async\<close>. The \<open>handshake\<close> is the outcome of the header
  and token checks, which are outside the gateway. With a verified token the handler
  suspends at \<^verbatim>\<open>await this.usersService.getUserByEmail\<close>; \<open>handleConnection_resume\<close>
  is the rest of its body, run with the user the lookup found, or with none when the
  lookup fails and the \<^verbatim>\<open>catch\<close> block runs. Other actions can come in between, also
  the disconnection of the socket: the writes to \<^verbatim>\<open>socket.data\<close> then go to an object
  the server no longer holds, and the registration still happens.
\<close>

definition handleConnection :: "socketId \<Rightarrow> handshake \<Rightarrow> world \<Rightarrow> world" where
  "handleConnection s hs w =
     (case hs of
        NoToken \<Rightarrow>
          socket_disconnect s (emit (ToSocket s) (E_connection_fail ''Token not found'') w)
      | InvalidToken \<Rightarrow>
          socket_disconnect s (emit (ToSocket s) (E_connection_fail ''Token is invalid'') w)
      | TokenVerified \<Rightarrow> w\<lparr>handshaking := handshaking w @ [s]\<rparr>)"

definition handleConnection_resume :: "socketId \<Rightarrow> userName option \<Rightarrow> world \<Rightarrow> world" where
  "handleConnection_resume s found w =
     (case found of
        None \<Rightarrow>
          socket_disconnect s (emit (ToSocket s) (E_connection_fail ''Token is invalid'') w)
      | Some name \<Rightarrow>
          if roomsService_isConnectedUser w name
          then socket_disconnect s
                 (emit (ToSocket s) (E_connection_fail ''Already connected user'') w)
          else roomsService_registerSocketId name s
                 (updSocket s (\<lambda>d. d\<lparr>data_user := Some name\<rparr>) w))"

definition enterLobby :: "socketId \<Rightarrow> world \<Rightarrow> reply \<times> world" where
  "enterLobby c w =
     (case clientUser w c of
        None \<Rightarrow> (Threw TypeError, w)
      | Some (d, name) \<Rightarrow>
          (case roomsService_enterRoom (Some LOBBY_ID) (data_roomId d)
                  \<lparr>socketId = c, userName = name, ready = False, passed = Some False,
                   itemList = []\<rparr> w of
             Inl e \<Rightarrow> (Threw e, w)
           | Inr w1 \<Rightarrow>
               (Ack Success,
                emit (ToRoom (Some LOBBY_ID) c) (E_user_enter_lobby name)
                  (updSocket c (\<lambda>x. x\<lparr>joined := insert LOBBY_ID (joined x),
                                       data_roomId := Some LOBBY_ID\<rparr>) w1))))"

definition exitLobby :: "socketId \<Rightarrow> world \<Rightarrow> reply \<times> world" where
  "exitLobby c w =
     (case clientUser w c of
        None \<Rightarrow> (Threw TypeError, w)
      | Some (d, name) \<Rightarrow>
          (Ack Success,
           emit (InRoom (Some LOBBY_ID)) (E_user_exit_lobby name None)
             (updSocket c (\<lambda>x. x\<lparr>joined := joined x - {LOBBY_ID}\<rparr>)
                (snd (roomsService_exitRoom (Some LOBBY_ID) name w)))))"

definition createRoom :: "socketId \<Rightarrow> string \<Rightarrow> nat \<Rightarrow> roomId \<Rightarrow> world \<Rightarrow> reply \<times> world" where
  "createRoom c name cap newId w =
     (let w1 = roomsService_createRoom name cap newId w
      in case clientUser w1 c of
           None \<Rightarrow> (Threw TypeError, w1)
         | Some (d, user) \<Rightarrow>
             (AckRoom Success (Some newId),
              emit (InRoom (Some ''lobby''))
                (E_user_create_room (roomsService_roomInfo w1 (Some newId)) user) w1))"

definition enterRoom :: "socketId \<Rightarrow> roomId \<Rightarrow> world \<Rightarrow> reply \<times> world" where
  "enterRoom c r w =
     (case clientUser w c of
        None \<Rightarrow> (Threw TypeError, w)
      | Some (d, name) \<Rightarrow>
          (case roomsService_enterRoom (Some r) (data_roomId d)
                  \<lparr>socketId = c, userName = name, ready = False, passed = None,
                   itemList = []\<rparr> w of
             Inl e \<Rightarrow> (Threw e, w)
           | Inr w1 \<Rightarrow>
               (let w2 = updSocket c (\<lambda>x. x\<lparr>joined := insert r (joined x),
                                             data_roomId := Some r\<rparr>) w1
                in case roomsService_getGameRoom w2 (Some r) of
                     None \<Rightarrow> (Threw TypeError, w2)
                   | Some rm \<Rightarrow>
                       (let w3 = emit (ToRoom (Some r) c)
                                   (E_user_enter_room name (EnterMessage name (roomName rm))) w2
                        in (AckRoom Success (Some r),
                            emit (InRoom (Some LOBBY_ID))
                              (E_change_user_count (Some r)
                                 (roomsService_roomUserCount w3 (Some r))) w3)))))"

definition socket_leave :: "socketId \<Rightarrow> roomId option \<Rightarrow> world \<Rightarrow> world" where
  "socket_leave c rid w =
     (case rid of
        None \<Rightarrow> w
      | Some r \<Rightarrow> updSocket c (\<lambda>x. x\<lparr>joined := joined x - {r}\<rparr>) w)"

definition exitRoom :: "socketId \<Rightarrow> world \<Rightarrow> reply \<times> world" where
  "exitRoom c w =
     (case clientUser w c of
        None \<Rightarrow> (Threw TypeError, w)
      | Some (d, name) \<Rightarrow>
          (let roomId = data_roomId d;
               (roomExists, w1) = roomsService_exitRoom roomId name w;
               w2 = socket_leave c roomId w1
           in if roomExists
              then (let w3 = emit (InRoom roomId) (E_user_exit_room name None) w2
                    in (AckRoom Success roomId,
                        emit (InRoom (Some LOBBY_ID))
                          (E_change_user_count roomId (roomsService_roomUserCount w3 roomId)) w3))
              else (AckRoom Success roomId,
                    emit (InRoom (Some LOBBY_ID)) (E_delete_room roomId) w2)))"

text \<open>\<^verbatim>\<open>start\<close> is \<^verbatim>\<open>async\<close>: the call in \<^verbatim>\<open>ready\<close> runs it up to the \<^verbatim>\<open>await\<close> of
  the problem set and returns; \<open>start\<close> below is the rest of its body, run once the
  problems have arrived.\<close>

definition ready_handler :: "socketId \<Rightarrow> world \<Rightarrow> reply \<times> world" where
  "ready_handler c w =
     (case clientUser w c of
        None \<Rightarrow> (Threw TypeError, w)
      | Some (d, name) \<Rightarrow>
          (let roomId = data_roomId d;
               (rdy, w1) = roomsService_switchReady roomId name w;
               w2 = emit (InRoom roomId) (E_ready name rdy) w1
           in if roomsService_allUserReady w2 roomId
              then (Done, w2\<lparr>starting := starting w2 @ [roomId]\<rparr>)
              else (Done, w2)))"

definition start :: "roomId option \<Rightarrow> problems \<Rightarrow> world \<Rightarrow> reply \<times> world" where
  "start roomId ps w =
     (let h = nextHandle w;
          w1 = w\<lparr>intervals := (intervals w)(h \<mapsto> roomId), nextHandle := Suc h\<rparr>
      in case roomsService_changeRoomState roomId Playing w1 of
           Inl e \<Rightarrow> (Threw e, w1)
         | Inr w2 \<Rightarrow>
             (Done,
              emit (InRoom (Some LOBBY_ID)) (E_room_start roomId Playing)
                (emit (InRoom roomId) (E_start ps)
                   (roomsService_setItemCreator roomId h w2))))"

definition kick :: "socketId \<Rightarrow> userName \<Rightarrow> world \<Rightarrow> reply \<times> world" where
  "kick c targetUserName w =
     (case clientUser w c of
        None \<Rightarrow> (Threw TypeError, w)
      | Some (d, name) \<Rightarrow>
          (let roomId = data_roomId d;
               (status, w1) = roomsService_kick roomId name targetUserName w
           in case socket w1 (roomsService_getSocketId w1 targetUserName) of
                None \<Rightarrow> (Threw TypeError, w1)
              | Some td \<Rightarrow>
                  (case roomsService_getSocketId w1 targetUserName of
                     None \<Rightarrow> (Threw TypeError, w1)
                   | Some ts \<Rightarrow>
                       (let w2 = socket_leave ts roomId w1;
                            w3 = emit (ToSocket ts) (E_kick roomId name) w2;
                            w4 = emit (InRoom roomId) (E_user_exit_room targetUserName None) w3
                        in (Ack status,
                            emit (InRoom (Some LOBBY_ID))
                              (E_change_user_count roomId
                                 (roomsService_roomUserCount w4 roomId)) w4)))))"

definition useItem :: "socketId \<Rightarrow> item \<Rightarrow> world \<Rightarrow> reply \<times> world" where
  "useItem c it w =
     (case clientUser w c of
        None \<Rightarrow> (Threw TypeError, w)
      | Some (d, name) \<Rightarrow>
          (let roomId = data_roomId d;
               (status, w1) = roomsService_useItem roomId name it w
           in (Done, emit (ToRoom roomId c) (E_item status name it) w1)))"

text \<open>The three statements that end a round. They stand twice in \<^verbatim>\<open>pass\<close>: after
  \<^verbatim>\<open>clearTimeout\<close> on the path where everybody has passed, and as the body of the
  countdown callback.\<close>

definition roundEnd :: "roomId option \<Rightarrow> world \<Rightarrow> world" where
  "roundEnd roomId w =
     emit (InRoom (Some ''lobby'')) (E_room_game_over roomId)
       (emit (InRoom roomId) E_game_over (roomsService_gameOver roomId w))"

definition pass :: "socketId \<Rightarrow> world \<Rightarrow> reply \<times> world" where
  "pass c w =
     (case sockets w c of
        None \<Rightarrow> (Threw TypeError, w)
      | Some d \<Rightarrow>
          (let roomId = data_roomId d;
               timer = roomsService_getTimer w roomId;
               w1 = updSocket c (\<lambda>x. x\<lparr>data_passed := True\<rparr>) w
           in if roomsService_allUserPassed w1 roomId \<and> timer \<noteq> None
              then (Done, roundEnd roomId (clearTimeout timer w1))
              else if timer \<noteq> None then (Done, w1)
              else (let h = nextHandle w1;
                        w2 = w1\<lparr>timeouts := (timeouts w1)(h \<mapsto> roomId), nextHandle := Suc h\<rparr>
                    in (Done,
                        emit (InRoom roomId) E_countdown (roomsService_setTimer roomId h w2)))))"

text \<open>The runtime fires a pending timeout once and runs its callback; a handle that is
  not pending (never set, already fired, or cleared) does not fire.\<close>

definition fireTimeout :: "handle \<Rightarrow> world \<Rightarrow> world" where
  "fireTimeout h w =
     (case timeouts w h of
        None \<Rightarrow> w
      | Some roomId \<Rightarrow> roundEnd roomId (w\<lparr>timeouts := (timeouts w)(h := None)\<rparr>))"

text \<open>\<^verbatim>\<open>createItem\<close>, the callback of the item-spawn interval: \<open>pick\<close> is the item the
  service assigns to each user.\<close>

fun createItem_each ::
  "roomId option \<Rightarrow> (userName \<Rightarrow> item) \<Rightarrow> socketId list \<Rightarrow> world \<Rightarrow> reply \<times> world" where
  "createItem_each roomId pick [] w = (Done, w)"
| "createItem_each roomId pick (sid # rest) w =
     (case socket w (Some sid) of
        None \<Rightarrow> (Threw TypeError, w)
      | Some d \<Rightarrow>
          (case data_user d of
             None \<Rightarrow> (Threw TypeError, w)
           | Some name \<Rightarrow>
               createItem_each roomId pick rest
                 (emit (ToSocket sid) (E_create_item (pick name))
                    (roomsService_assignItem roomId name (pick name) w))))"

definition createItem :: "roomId option \<Rightarrow> (userName \<Rightarrow> item) \<Rightarrow> world \<Rightarrow> reply \<times> world" where
  "createItem roomId pick w =
     createItem_each roomId pick (roomsService_roomSocketIdList w roomId) w"

section \<open>Runs of the gateway\<close>

text \<open>
  One action is one unit of work of the single worker: a connection or disconnection,
  the end of the user lookup a suspended \<^verbatim>\<open>handleConnection\<close> waits for, an inbound
  message, the arrival of the problems a suspended \<^verbatim>\<open>start\<close> waits for, or the firing
  of a timer. The identifier of a new connection is not that of a live socket nor of one
  whose handshake is suspended. \<^verbatim>\<open>lobby_info\<close>, \<^verbatim>\<open>room_info\<close>, \<^verbatim>\<open>chat\<close>,
  \<^verbatim>\<open>dm\<close>, \<^verbatim>\<open>exit_result\<close> and \<^verbatim>\<open>invite\<close> only read the service and write to
  sockets; they are left out.
\<close>

datatype action =
    Connect socketId handshake
  | UserArrives socketId "userName option"
  | Disconnect socketId
  | EnterLobby socketId
  | ExitLobby socketId
  | CreateRoom socketId string nat roomId
  | EnterRoom socketId roomId
  | ExitRoom socketId
  | Ready socketId
  | ProblemsArrive "roomId option" problems
  | Kick socketId userName
  | UseItem socketId item
  | Pass socketId
  | TimeoutFires handle
  | IntervalFires handle "userName \<Rightarrow> item"

definition newSocket :: socket_data where
  "newSocket = \<lparr>data_user = None, data_roomId = None, data_passed = False, joined = {}\<rparr>"

fun step :: "action \<Rightarrow> world \<Rightarrow> world" where
  "step (Connect s hs) w =
     (if sockets w s = None \<and> s \<notin> set (handshaking w)
      then handleConnection s hs (w\<lparr>sockets := (sockets w)(s \<mapsto> newSocket)\<rparr>)
      else w)"
| "step (UserArrives s found) w =
     (if s \<in> set (handshaking w)
      then handleConnection_resume s found (w\<lparr>handshaking := remove1 s (handshaking w)\<rparr>)
      else w)"
| "step (Disconnect s) w = (if sockets w s = None then w else socket_disconnect s w)"
| "step (EnterLobby c) w = snd (enterLobby c w)"
| "step (ExitLobby c) w = snd (exitLobby c w)"
| "step (CreateRoom c name cap newId) w =
     (if rooms w newId \<noteq> None then w else snd (createRoom c name cap newId w))"
| "step (EnterRoom c r) w = snd (enterRoom c r w)"
| "step (ExitRoom c) w = snd (exitRoom c w)"
| "step (Ready c) w = snd (ready_handler c w)"
| "step (ProblemsArrive rid ps) w =
     (if rid \<in> set (starting w)
      then snd (start rid ps (w\<lparr>starting := remove1 rid (starting w)\<rparr>))
      else w)"
| "step (Kick c tgt) w = snd (kick c tgt w)"
| "step (UseItem c it) w = snd (useItem c it w)"
| "step (Pass c) w = snd (pass c w)"
| "step (TimeoutFires h) w = fireTimeout h w"
| "step (IntervalFires h pick) w =
     (case intervals w h of None \<Rightarrow> w | Some rid \<Rightarrow> snd (createItem rid pick w))"

fun run :: "action list \<Rightarrow> world \<Rightarrow> world" where
  "run [] w = w"
| "run (a # as) w = run as (step a w)"

text \<open>The world at process start: the Lobby and nothing else.\<close>

definition init :: world where
  "init =
     \<lparr>rooms = [LOBBY_ID \<mapsto> \<lparr>roomName = ''lobby'', capacity = 0, state = Waiting, users = [],
                             timer = None, itemCreator = None\<rparr>],
      socketIds = Map.empty, sockets = Map.empty, timeouts = Map.empty,
      intervals = Map.empty, nextHandle = 0, starting = [], handshaking = [],
      emitted = []\<rparr>"

definition roomState :: "world \<Rightarrow> roomId option \<Rightarrow> room_state option" where
  "roomState w rid = map_option state (roomsService_getGameRoom w rid)"

definition members :: "world \<Rightarrow> roomId \<Rightarrow> userName list" where
  "members w r = (case rooms w r of None \<Rightarrow> [] | Some rm \<Rightarrow> map userName (users rm))"

subsection \<open>Sample runs\<close>

text \<open>A socket connects with a verified token and the lookup finds its user.\<close>

definition login :: "socketId \<Rightarrow> userName \<Rightarrow> action list" where
  "login s name = [Connect s TokenVerified, UserArrives s (Some name)]"

text \<open>Users A, B and C connect; A creates room \<open>r1\<close> of capacity 2; C enters the
  Lobby; A and B enter \<open>r1\<close>, which is then full.\<close>

definition run_full_room :: "action list" where
  "run_full_room =
     login ''sA'' ''A'' @ login ''sB'' ''B'' @ login ''sC'' ''C'' @
     [CreateRoom ''sA'' ''room'' 2 ''r1'', EnterLobby ''sC'', EnterRoom ''sA'' ''r1'',
      EnterRoom ''sB'' ''r1'']"

text \<open>Both members get ready and the round starts once the problems have arrived.\<close>

definition run_playing :: "action list" where
  "run_playing =
     run_full_room @ [Ready ''sA'', Ready ''sB'', ProblemsArrive (Some ''r1'') [''p1'']]"

text \<open>B leaves the running round; A, now the only member, passes.\<close>

definition run_last_member_passes :: "action list" where
  "run_last_member_passes = run_playing @ [ExitRoom ''sB'', Pass ''sA'']"




text \<open>A alone enters a room and leaves it, so the room is removed; A then sends
  \<^verbatim>\<open>pass\<close> (\<^verbatim>\<open>client.data.roomId\<close> still names the room).\<close>

definition run_pass_after_exit :: "action list" where
  "run_pass_after_exit =
     login ''sA'' ''A'' @
     [CreateRoom ''sA'' ''room'' 2 ''r1'', EnterRoom ''sA'' ''r1'', ExitRoom ''sA'',
      Pass ''sA'']"

text \<open>A and B are ready, the start is under way, and A takes the readiness back before
  the problems arrive.\<close>

definition run_unready_before_start :: "action list" where
  "run_unready_before_start = run_full_room @ [Ready ''sA'', Ready ''sB'', Ready ''sA'']"

subsection \<open>Sample worlds\<close>

definition world_full_room :: world where
  "world_full_room = run run_full_room init"

text \<open>The worlds in which the last \<^verbatim>\<open>pass\<close> of a round arrives: with A's countdown
  running, and with no countdown after B has left.\<close>

definition world_countdown_running :: world where
  "world_countdown_running = run (run_playing @ [Pass ''sA'']) init"

definition world_last_member :: world where
  "world_last_member = run (run_playing @ [ExitRoom ''sB'']) init"

text \<open>The full room with A ready, and with both ready while the start waits for the
  problems.\<close>

definition world_one_ready :: world where
  "world_one_ready = run (run_full_room @ [Ready ''sA'']) init"

definition world_starting :: world where
  "world_starting = run (run_full_room @ [Ready ''sA'', Ready ''sB'']) init"

text \<open>C, still in the Lobby, has created a second room.\<close>

definition world_two_rooms :: world where
  "world_two_rooms = run (run_full_room @ [CreateRoom ''sC'' ''other'' 2 ''r2'']) init"

text \<open>A connection whose handshake has not completed, next to the full room.\<close>

definition world_with_guest :: world where
  "world_with_guest =
     (run run_full_room init)\<lparr>sockets := (sockets (run run_full_room init))(''sX'' \<mapsto> newSocket)\<rparr>"

subsection \<open>Membership invariants\<close>

text \<open>The room a user's registered connection is bound to.\<close>

definition roomOf :: "world \<Rightarrow> userName \<Rightarrow> roomId option" where
  "roomOf w u =
     (case socketIds w u of
        None \<Rightarrow> None
      | Some s \<Rightarrow>
          (case sockets w s of
             None \<Rightarrow> None
           | Some d \<Rightarrow> if data_user d = Some u then data_roomId d else None))"

text \<open>The invariant of the runs: no member is listed twice, a member of a room is
  registered with a connection that is bound to this room, the connection that carries
  a user is the registered one, and a connection whose \<^verbatim>\<open>handleConnection\<close> is still
  suspended carries no user.\<close>

definition membership_inv :: "world \<Rightarrow> bool" where
  "membership_inv w \<longleftrightarrow>
     (\<forall>r. distinct (members w r)) \<and>
     (\<forall>r u. u \<in> set (members w r) \<longrightarrow> roomOf w u = Some r) \<and>
     (\<forall>s d u. sockets w s = Some d \<and> data_user d = Some u \<longrightarrow> socketIds w u = Some s) \<and>
     distinct (handshaking w) \<and>
     (\<forall>s d. s \<in> set (handshaking w) \<and> sockets w s = Some d \<longrightarrow> data_user d = None)"

subsection \<open>Relations between two worlds\<close>

text \<open>No room is \<open>Playing\<close> in \<open>w'\<close> that was not \<open>Playing\<close> in \<open>w\<close>.\<close>

definition noNewPlaying :: "world \<Rightarrow> world \<Rightarrow> bool" where
  "noNewPlaying w w' \<longleftrightarrow>
     (\<forall>r. roomState w' (Some r) = Some Playing \<longrightarrow> roomState w (Some r) = Some Playing)"

text \<open>The user and the room each connection is bound to.\<close>

definition conn :: "world \<Rightarrow> socketId \<Rightarrow> (userName option \<times> roomId option) option" where
  "conn w s = map_option (\<lambda>d. (data_user d, data_roomId d)) (sockets w s)"

text \<open>From \<open>w\<close> to \<open>w'\<close> members are at most removed, and the registry, the bindings
  of the connections and the suspended handshakes stay.\<close>

definition shrinks :: "world \<Rightarrow> world \<Rightarrow> bool" where
  "shrinks w w' \<longleftrightarrow>
     (\<forall>r. \<exists>P. members w' r = filter P (members w r)) \<and>
     socketIds w' = socketIds w \<and> conn w' = conn w \<and> handshaking w' = handshaking w"

section \<open>Basic facts\<close>

lemma emit_fields [simp]:
  "rooms (emit t e w) = rooms w" "socketIds (emit t e w) = socketIds w"
  "sockets (emit t e w) = sockets w" "timeouts (emit t e w) = timeouts w"
  "intervals (emit t e w) = intervals w" "nextHandle (emit t e w) = nextHandle w"
  "starting (emit t e w) = starting w" "handshaking (emit t e w) = handshaking w"
  "emitted (emit t e w) = emitted w @ [(t, e)]"
  by (simp_all add: emit_def)

lemma updSocket_fields [simp]:
  "rooms (updSocket s f w) = rooms w" "socketIds (updSocket s f w) = socketIds w"
  "timeouts (updSocket s f w) = timeouts w"
  "intervals (updSocket s f w) = intervals w" "nextHandle (updSocket s f w) = nextHandle w"
  "starting (updSocket s f w) = starting w" "handshaking (updSocket s f w) = handshaking w"
  "emitted (updSocket s f w) = emitted w"
  by (simp_all add: updSocket_def split: option.splits)

lemma updRoom_fields [simp]:
  "sockets (updRoom rid f w) = sockets w" "socketIds (updRoom rid f w) = socketIds w"
  "timeouts (updRoom rid f w) = timeouts w"
  "intervals (updRoom rid f w) = intervals w" "nextHandle (updRoom rid f w) = nextHandle w"
  "starting (updRoom rid f w) = starting w" "handshaking (updRoom rid f w) = handshaking w"
  "emitted (updRoom rid f w) = emitted w"
  by (simp_all add: updRoom_def split: option.splits)

lemma clearTimeout_fields [simp]:
  "rooms (clearTimeout ho w) = rooms w" "socketIds (clearTimeout ho w) = socketIds w"
  "sockets (clearTimeout ho w) = sockets w"
  "intervals (clearTimeout ho w) = intervals w" "nextHandle (clearTimeout ho w) = nextHandle w"
  "starting (clearTimeout ho w) = starting w"
  "handshaking (clearTimeout ho w) = handshaking w" "emitted (clearTimeout ho w) = emitted w"
  by (simp_all add: clearTimeout_def split: option.splits)

lemma clearInterval_fields [simp]:
  "rooms (clearInterval ho w) = rooms w" "socketIds (clearInterval ho w) = socketIds w"
  "sockets (clearInterval ho w) = sockets w"
  "timeouts (clearInterval ho w) = timeouts w" "nextHandle (clearInterval ho w) = nextHandle w"
  "starting (clearInterval ho w) = starting w"
  "handshaking (clearInterval ho w) = handshaking w" "emitted (clearInterval ho w) = emitted w"
  by (simp_all add: clearInterval_def split: option.splits)

lemma getGameRoom_frame [simp]:
  "roomsService_getGameRoom (emit t e w) rid = roomsService_getGameRoom w rid"
  "roomsService_getGameRoom (updSocket s f w) rid = roomsService_getGameRoom w rid"
  "roomsService_getGameRoom (clearTimeout ho w) rid = roomsService_getGameRoom w rid"
  "roomsService_getGameRoom (clearInterval ho w) rid = roomsService_getGameRoom w rid"
  by (simp_all add: roomsService_getGameRoom_def split: option.splits)

lemma getGameRoom_updRoom:
  "roomsService_getGameRoom (updRoom rid f w) rid' =
     (if rid' = rid then map_option f (roomsService_getGameRoom w rid)
      else roomsService_getGameRoom w rid')"
  by (auto simp: roomsService_getGameRoom_def updRoom_def split: option.splits)

lemma gameOver_fields [simp]:
  "emitted (roomsService_gameOver rid w) = emitted w"
  "sockets (roomsService_gameOver rid w) = sockets w"
  "socketIds (roomsService_gameOver rid w) = socketIds w"
  "nextHandle (roomsService_gameOver rid w) = nextHandle w"
  "starting (roomsService_gameOver rid w) = starting w"
  "handshaking (roomsService_gameOver rid w) = handshaking w"
  by (simp_all add: roomsService_gameOver_def split: option.splits)

lemma getGameRoom_gameOver:
  "roomsService_getGameRoom (roomsService_gameOver rid w) rid' =
     (if rid' = rid
      then map_option (\<lambda>x. x\<lparr>state := Over, timer := None, itemCreator := None\<rparr>)
             (roomsService_getGameRoom w rid)
      else roomsService_getGameRoom w rid')"
  by (auto simp: roomsService_gameOver_def getGameRoom_updRoom split: option.splits)

lemma gameOver_timeouts:
  "timeouts (roomsService_gameOver rid w) =
     (case roomsService_getGameRoom w rid of
        None \<Rightarrow> timeouts w
      | Some rm \<Rightarrow> (case timer rm of None \<Rightarrow> timeouts w | Some h \<Rightarrow> (timeouts w)(h := None)))"
  by (simp add: roomsService_gameOver_def clearTimeout_def split: option.splits)



lemma setTimer_fields [simp]:
  "emitted (roomsService_setTimer rid h w) = emitted w"
  "timeouts (roomsService_setTimer rid h w) = timeouts w"
  "sockets (roomsService_setTimer rid h w) = sockets w"
  by (simp_all add: roomsService_setTimer_def)


lemma service_exitRoom_fields [simp]:
  "emitted (snd (roomsService_exitRoom rid name w)) = emitted w"
  "sockets (snd (roomsService_exitRoom rid name w)) = sockets w"
  "socketIds (snd (roomsService_exitRoom rid name w)) = socketIds w"
  "nextHandle (snd (roomsService_exitRoom rid name w)) = nextHandle w"
  "starting (snd (roomsService_exitRoom rid name w)) = starting w"
  "handshaking (snd (roomsService_exitRoom rid name w)) = handshaking w"
  by (simp_all add: roomsService_exitRoom_def split: option.splits)


lemma createItem_each_throws:
  "createItem_each rid pick sids w = (if sids = [] then (Done, w) else (Threw TypeError, w))"
  by (cases sids) (simp_all add: socket_def)

section \<open>Disconnecting\<close>

text \<open>
  Claim C10. When a socket that has no authenticated user bound to it disconnects,
  \<^verbatim>\<open>handleDisconnect\<close> returns at its first statement: no room is left, the identity
  registry is not touched and nothing is emitted; the world is the same afterwards.
\<close>

theorem handleDisconnect_without_user:
  assumes "sockets w s = Some d" and "data_user d = None"
  shows "handleDisconnect s w = w"
  using assms by (simp add: handleDisconnect_def clientUser_def)

theorem handleDisconnect_without_user_witness:
  "sockets world_with_guest ''sX'' = Some newSocket \<and> data_user newSocket = None \<and>
   handleDisconnect ''sX'' world_with_guest = world_with_guest"
proof -
  have h1: "sockets world_with_guest ''sX'' = Some newSocket"
    by (simp add: world_with_guest_def)
  have h2: "data_user newSocket = None"
    by (simp add: newSocket_def)
  from handleDisconnect_without_user [OF h1 h2] h1 h2 show ?thesis by simp
qed

text \<open>
  Claim C4, at a failing input. A and B are the members of room \<open>r1\<close> and A's
  connection is lost. \<^verbatim>\<open>handleDisconnect\<close> leaves the membership of \<open>r1\<close> as an
  \<^verbatim>\<open>exit_room\<close> of A leaves it, but it emits \<^verbatim>\<open>user_exit_room\<close> to the room only:
  the \<^verbatim>\<open>change_user_count\<close> that \<^verbatim>\<open>exit_room\<close> sends to the Lobby is missing.
\<close>

theorem handleDisconnect_omits_change_user_count:
  "emitted (handleDisconnect ''sA'' world_full_room) =
     emitted world_full_room @
       [(InRoom (Some ''r1''), E_user_exit_room ''A'' (Some (ExitMessage ''A'' ''r1'')))] \<and>
   emitted (snd (exitRoom ''sA'' world_full_room)) =
     emitted world_full_room @
       [(InRoom (Some ''r1''), E_user_exit_room ''A'' None),
        (InRoom (Some ''lobby''), E_change_user_count (Some ''r1'') (Some 1))] \<and>
   members (handleDisconnect ''sA'' world_full_room) ''r1'' = [''B''] \<and>
   members (snd (exitRoom ''sA'' world_full_room)) ''r1'' = [''B''] \<and>
   socketIds (handleDisconnect ''sA'' world_full_room) ''A'' = None"
  unfolding world_full_room_def by code_simp

section \<open>Passing and the end of a round\<close>


lemma roomState_gameOver:
  "roomState (roomsService_gameOver rid w) rid = map_option (\<lambda>_. Over) (roomState w rid)"
  by (cases "roomsService_getGameRoom w rid")
    (simp_all add: roomState_def getGameRoom_gameOver)

lemma roomState_frame [simp]:
  "roomState (emit t e w) rid = roomState w rid"
  "roomState (updSocket s f w) rid = roomState w rid"
  "roomState (clearTimeout ho w) rid = roomState w rid"
  "roomState (w\<lparr>timeouts := a\<rparr>) rid = roomState w rid"
  "roomState (w\<lparr>nextHandle := n\<rparr>) rid = roomState w rid"
  by (simp_all add: roomState_def roomsService_getGameRoom_def split: option.splits)

lemma fireTimeout_pending:
  assumes "timeouts w h = Some r"
  shows "fireTimeout h w =
           emit (InRoom (Some ''lobby'')) (E_room_game_over r)
             (emit (InRoom r) E_game_over
                (roomsService_gameOver r (w\<lparr>timeouts := (timeouts w)(h := None)\<rparr>)))"
    and "timeouts (fireTimeout h w) h = None"
    and "roomState (fireTimeout h w) r = map_option (\<lambda>_. Over) (roomState w r)"
    and "emitted (fireTimeout h w) =
           emitted w @ [(InRoom r, E_game_over), (InRoom (Some ''lobby''), E_room_game_over r)]"
  using assms
  by (simp_all add: fireTimeout_def roundEnd_def roomState_gameOver gameOver_timeouts
      split: option.splits)

text \<open>
  Claim C1, as the code has it. When a \<^verbatim>\<open>pass\<close> makes every member of the caller's
  room passed, what happens depends on the countdown. If one is running, it is
  cancelled, the room goes to \<open>Over\<close> and \<^verbatim>\<open>game_over\<close> and \<^verbatim>\<open>room_game_over\<close> are
  emitted at once. If none is running, the round does not end in that step: the handler
  starts a countdown, stores its handle in the room and emits \<^verbatim>\<open>countdown\<close>, and the
  state of the room is as before; when that countdown fires, the round ends.
\<close>

theorem pass_when_all_passed:
  assumes "sockets w c = Some d"
    and "roomsService_allUserPassed (updSocket c (\<lambda>x. x\<lparr>data_passed := True\<rparr>) w) (data_roomId d)"
  shows "(let w1 = updSocket c (\<lambda>x. x\<lparr>data_passed := True\<rparr>) w; h0 = nextHandle w
          in pass c w =
               (Done,
                case roomsService_getTimer w (data_roomId d) of
                  Some h \<Rightarrow>
                    emit (InRoom (Some ''lobby'')) (E_room_game_over (data_roomId d))
                      (emit (InRoom (data_roomId d)) E_game_over
                         (roomsService_gameOver (data_roomId d) (clearTimeout (Some h) w1)))
                | None \<Rightarrow>
                    emit (InRoom (data_roomId d)) E_countdown
                      (roomsService_setTimer (data_roomId d) h0
                         (w1\<lparr>timeouts := (timeouts w)(h0 \<mapsto> data_roomId d),
                             nextHandle := Suc h0\<rparr>)))) \<and>
         emitted (snd (pass c w)) =
           emitted w @
           (case roomsService_getTimer w (data_roomId d) of
              Some h \<Rightarrow> [(InRoom (data_roomId d), E_game_over),
                         (InRoom (Some ''lobby''), E_room_game_over (data_roomId d))]
            | None \<Rightarrow> [(InRoom (data_roomId d), E_countdown)]) \<and>
         timeouts (snd (pass c w)) =
           (case roomsService_getTimer w (data_roomId d) of
              Some h \<Rightarrow> (timeouts w)(h := None)
            | None \<Rightarrow> (timeouts w)(nextHandle w \<mapsto> data_roomId d)) \<and>
         roomState (snd (pass c w)) (data_roomId d) =
           (case roomsService_getTimer w (data_roomId d) of
              Some h \<Rightarrow> Some Over
            | None \<Rightarrow> roomState w (data_roomId d)) \<and>
         roomsService_getTimer (snd (pass c w)) (data_roomId d) =
           (case roomsService_getTimer w (data_roomId d) of
              Some h \<Rightarrow> None
            | None \<Rightarrow> Some (nextHandle w)) \<and>
         (roomsService_getTimer w (data_roomId d) = None \<longrightarrow>
            roomState (fireTimeout (nextHandle w) (snd (pass c w))) (data_roomId d) = Some Over \<and>
            emitted (fireTimeout (nextHandle w) (snd (pass c w))) =
              emitted w @
              [(InRoom (data_roomId d), E_countdown), (InRoom (data_roomId d), E_game_over),
               (InRoom (Some ''lobby''), E_room_game_over (data_roomId d))])"
proof -
  from assms(2) obtain r rm where rm: "data_roomId d = Some r" "rooms w r = Some rm"
    by (auto simp: roomsService_allUserPassed_def roomsService_getGameRoom_def
        split: option.splits)
  show ?thesis
  proof (cases "timer rm")
    case None
    with rm have nt: "roomsService_getTimer w (data_roomId d) = None"
      by (simp add: roomsService_getTimer_def roomsService_getGameRoom_def)
    have p: "pass c w =
        (Done,
         emit (InRoom (data_roomId d)) E_countdown
           (roomsService_setTimer (data_roomId d) (nextHandle w)
              ((updSocket c (\<lambda>x. x\<lparr>data_passed := True\<rparr>) w)
                 \<lparr>timeouts := (timeouts w)(nextHandle w \<mapsto> data_roomId d),
                  nextHandle := Suc (nextHandle w)\<rparr>)))"
      using assms nt by (simp add: pass_def Let_def)
    have pend: "timeouts (snd (pass c w)) (nextHandle w) = Some (data_roomId d)"
      by (simp add: p)
    have st: "roomState (snd (pass c w)) (data_roomId d) = Some (state rm)"
      using rm
      by (simp add: p roomState_def roomsService_setTimer_def roomsService_getGameRoom_def
          updRoom_def split: option.splits)
    have tm: "roomsService_getTimer (snd (pass c w)) (data_roomId d) = Some (nextHandle w)"
      using rm
      by (simp add: p roomsService_getTimer_def roomsService_setTimer_def
          roomsService_getGameRoom_def updRoom_def split: option.splits)
    have st0: "roomState w (data_roomId d) = Some (state rm)"
      using rm by (simp add: roomState_def roomsService_getGameRoom_def)
    have em: "emitted (snd (pass c w)) = emitted w @ [(InRoom (data_roomId d), E_countdown)]"
      by (simp add: p)
    from fireTimeout_pending(3,4) [OF pend] st em
    have fire: "roomState (fireTimeout (nextHandle w) (snd (pass c w))) (data_roomId d) = Some Over"
      "emitted (fireTimeout (nextHandle w) (snd (pass c w))) =
         emitted w @
         [(InRoom (data_roomId d), E_countdown), (InRoom (data_roomId d), E_game_over),
          (InRoom (Some ''lobby''), E_room_game_over (data_roomId d))]"
      by simp_all
    show ?thesis
      unfolding Let_def using nt st st0 tm em fire
      by (simp add: p)
  next
    case (Some h)
    with rm have nt: "roomsService_getTimer w (data_roomId d) = Some h"
      by (simp add: roomsService_getTimer_def roomsService_getGameRoom_def)
    have p: "pass c w =
        (Done,
         emit (InRoom (Some ''lobby'')) (E_room_game_over (data_roomId d))
           (emit (InRoom (data_roomId d)) E_game_over
              (roomsService_gameOver (data_roomId d)
                 (clearTimeout (Some h) (updSocket c (\<lambda>x. x\<lparr>data_passed := True\<rparr>) w)))))"
      using assms nt by (simp add: pass_def Let_def roundEnd_def)
    show ?thesis
      unfolding Let_def using nt rm Some
      by (simp add: p roomState_def roomsService_getTimer_def roomsService_gameOver_def
          roomsService_getGameRoom_def updRoom_def clearTimeout_def clearInterval_def
          split: option.splits)
  qed
qed

theorem pass_when_all_passed_witness:
  "emitted (snd (pass ''sB'' world_countdown_running)) =
     emitted world_countdown_running @
       [(InRoom (Some ''r1''), E_game_over), (InRoom (Some ''lobby''), E_room_game_over (Some ''r1''))] \<and>
   timeouts (snd (pass ''sB'' world_countdown_running)) 1 = None \<and>
   roomState (snd (pass ''sB'' world_countdown_running)) (Some ''r1'') = Some Over \<and>
   roomsService_getTimer (snd (pass ''sB'' world_countdown_running)) (Some ''r1'') = None \<and>
   emitted (snd (pass ''sA'' world_last_member)) =
     emitted world_last_member @ [(InRoom (Some ''r1''), E_countdown)] \<and>
   timeouts (snd (pass ''sA'' world_last_member)) 1 = Some (Some ''r1'') \<and>
   roomState (snd (pass ''sA'' world_last_member)) (Some ''r1'') = Some Playing \<and>
   roomsService_getTimer (snd (pass ''sA'' world_last_member)) (Some ''r1'') = Some 1 \<and>
   roomState (fireTimeout 1 (snd (pass ''sA'' world_last_member))) (Some ''r1'') = Some Over"
proof -
  let ?dB = "\<lparr>data_user = Some ''B'', data_roomId = Some ''r1'', data_passed = False,
              joined = {''r1''}\<rparr>"
  let ?dA = "\<lparr>data_user = Some ''A'', data_roomId = Some ''r1'', data_passed = False,
              joined = {''r1''}\<rparr>"
  have b1: "sockets world_countdown_running ''sB'' = Some ?dB"
    unfolding world_countdown_running_def by code_simp
  have b2: "roomsService_allUserPassed
              (updSocket ''sB'' (\<lambda>x. x\<lparr>data_passed := True\<rparr>) world_countdown_running)
              (data_roomId ?dB)"
    unfolding world_countdown_running_def by code_simp
  have b3: "roomsService_getTimer world_countdown_running (Some ''r1'') = Some 1"
    unfolding world_countdown_running_def by code_simp
  have a1: "sockets world_last_member ''sA'' = Some ?dA"
    unfolding world_last_member_def by code_simp
  have a2: "roomsService_allUserPassed
              (updSocket ''sA'' (\<lambda>x. x\<lparr>data_passed := True\<rparr>) world_last_member)
              (data_roomId ?dA)"
    unfolding world_last_member_def by code_simp
  have a3: "roomsService_getTimer world_last_member (Some ''r1'') = None"
    unfolding world_last_member_def by code_simp
  have a4: "nextHandle world_last_member = 1"
    unfolding world_last_member_def by code_simp
  have a5: "roomState world_last_member (Some ''r1'') = Some Playing"
    unfolding world_last_member_def by code_simp
  from pass_when_all_passed [OF b1 b2, unfolded Let_def, THEN conjunct2]
    pass_when_all_passed [OF a1 a2, unfolded Let_def, THEN conjunct2] b3 a3 a4 a5
  show ?thesis by simp
qed

text \<open>The claim as stated fails where no countdown is running: B has left the running
  round, A is the only member and passes, so every member has passed; the room stays
  \<open>Playing\<close> and only \<^verbatim>\<open>countdown\<close> is emitted.\<close>

theorem pass_last_member_counterexample:
  "roomsService_getTimer (run (run_playing @ [ExitRoom ''sB'']) init) (Some ''r1'') = None \<and>
   roomsService_allUserPassed (run run_last_member_passes init) (Some ''r1'') \<and>
   roomState (run run_last_member_passes init) (Some ''r1'') = Some Playing \<and>
   (InRoom (Some ''r1''), E_game_over) \<notin> set (emitted (run run_last_member_passes init)) \<and>
   last (emitted (run run_last_member_passes init)) = (InRoom (Some ''r1''), E_countdown)"
  by code_simp

text \<open>
  Claim C2, as the code has it. The countdown that \<^verbatim>\<open>pass\<close> cancels with
  \<^verbatim>\<open>clearTimeout\<close>, when every member has passed, is no longer pending: it does not
  fire and changes nothing afterwards. The expiry callback itself checks nothing,
  neither that the room still exists nor a generation: whenever a pending countdown
  fires, the callback calls \<^verbatim>\<open>gameOver\<close> for the room identifier it captured and emits
  \<^verbatim>\<open>game_over\<close> to the room and \<^verbatim>\<open>room_game_over\<close> to the Lobby.
\<close>

theorem countdown_callback_unguarded:
  assumes "sockets w c = Some d"
    and "roomsService_allUserPassed (updSocket c (\<lambda>x. x\<lparr>data_passed := True\<rparr>) w) (data_roomId d)"
    and "roomsService_getTimer w (data_roomId d) = Some h"
  shows "timeouts (snd (pass c w)) h = None \<and>
         fireTimeout h (snd (pass c w)) = snd (pass c w) \<and>
         (case timeouts w' h' of
            None \<Rightarrow> fireTimeout h' w' = w'
          | Some r \<Rightarrow>
              fireTimeout h' w' =
                emit (InRoom (Some ''lobby'')) (E_room_game_over r)
                  (emit (InRoom r) E_game_over
                     (roomsService_gameOver r (w'\<lparr>timeouts := (timeouts w')(h' := None)\<rparr>))) \<and>
              timeouts (fireTimeout h' w') h' = None \<and>
              roomState (fireTimeout h' w') r = map_option (\<lambda>_. Over) (roomState w' r) \<and>
              emitted (fireTimeout h' w') =
                emitted w' @
                [(InRoom r, E_game_over), (InRoom (Some ''lobby''), E_room_game_over r)])"
proof -
  have "pass c w =
      (Done, roundEnd (data_roomId d)
               (clearTimeout (Some h) (updSocket c (\<lambda>x. x\<lparr>data_passed := True\<rparr>) w)))"
    using assms by (simp add: pass_def Let_def)
  then have "timeouts (snd (pass c w)) h = None"
    by (simp add: roundEnd_def gameOver_timeouts clearTimeout_def split: option.splits)
  moreover from this have "fireTimeout h (snd (pass c w)) = snd (pass c w)"
    by (simp add: fireTimeout_def)
  moreover have "case timeouts w' h' of
      None \<Rightarrow> fireTimeout h' w' = w'
    | Some r \<Rightarrow>
        fireTimeout h' w' =
          emit (InRoom (Some ''lobby'')) (E_room_game_over r)
            (emit (InRoom r) E_game_over
               (roomsService_gameOver r (w'\<lparr>timeouts := (timeouts w')(h' := None)\<rparr>))) \<and>
        timeouts (fireTimeout h' w') h' = None \<and>
        roomState (fireTimeout h' w') r = map_option (\<lambda>_. Over) (roomState w' r) \<and>
        emitted (fireTimeout h' w') =
          emitted w' @
          [(InRoom r, E_game_over), (InRoom (Some ''lobby''), E_room_game_over r)]"
  proof (cases "timeouts w' h'")
    case None
    then show ?thesis by (simp add: fireTimeout_def)
  next
    case (Some r)
    with fireTimeout_pending [OF Some] show ?thesis by simp
  qed
  ultimately show ?thesis by blast
qed

theorem countdown_callback_unguarded_witness:
  "timeouts world_countdown_running 1 = Some (Some ''r1'') \<and>
   timeouts (snd (pass ''sB'' world_countdown_running)) 1 = None \<and>
   fireTimeout 1 (snd (pass ''sB'' world_countdown_running)) =
     snd (pass ''sB'' world_countdown_running) \<and>
   fireTimeout 0 (run run_pass_after_exit init) =
     emit (InRoom (Some ''lobby'')) (E_room_game_over (Some ''r1''))
       (emit (InRoom (Some ''r1'')) E_game_over
          (roomsService_gameOver (Some ''r1'')
             ((run run_pass_after_exit init)
                \<lparr>timeouts := (timeouts (run run_pass_after_exit init))(0 := None)\<rparr>))) \<and>
   fireTimeout 7 (run run_pass_after_exit init) = run run_pass_after_exit init"
proof -
  let ?dB = "\<lparr>data_user = Some ''B'', data_roomId = Some ''r1'', data_passed = False,
              joined = {''r1''}\<rparr>"
  have b0: "timeouts world_countdown_running 1 = Some (Some ''r1'')"
    unfolding world_countdown_running_def by code_simp
  have b1: "sockets world_countdown_running ''sB'' = Some ?dB"
    unfolding world_countdown_running_def by code_simp
  have b2: "roomsService_allUserPassed
              (updSocket ''sB'' (\<lambda>x. x\<lparr>data_passed := True\<rparr>) world_countdown_running)
              (data_roomId ?dB)"
    unfolding world_countdown_running_def by code_simp
  have b3: "roomsService_getTimer world_countdown_running (data_roomId ?dB) = Some 1"
    unfolding world_countdown_running_def by code_simp
  have t0: "timeouts (run run_pass_after_exit init) 0 = Some (Some ''r1'')"
    by code_simp
  have t7: "timeouts (run run_pass_after_exit init) 7 = None"
    by code_simp
  from countdown_callback_unguarded [where w' = "run run_pass_after_exit init" and h' = 0,
      OF b1 b2 b3]
    countdown_callback_unguarded [where w' = "run run_pass_after_exit init" and h' = 7,
      OF b1 b2 b3] b0 t0 t7
  show ?thesis by simp
qed

text \<open>The callback is not a no-op for a room that is gone: A leaves room \<open>r1\<close> as its
  last member, sends \<^verbatim>\<open>pass\<close>, and the countdown this starts fires.\<close>

theorem countdown_callback_counterexample:
  "rooms (run run_pass_after_exit init) ''r1'' = None \<and>
   timeouts (run run_pass_after_exit init) 0 = Some (Some ''r1'') \<and>
   emitted (fireTimeout 0 (run run_pass_after_exit init)) =
     emitted (run run_pass_after_exit init) @
       [(InRoom (Some ''r1''), E_game_over), (InRoom (Some ''lobby''), E_room_game_over (Some ''r1''))]"
  by code_simp



section \<open>Entering, kicking and using items\<close>

text \<open>
  Claim C6. An \<^verbatim>\<open>enter_room\<close> for a room that does not exist fails with
  \<open>RoomNotFound\<close>, and one for a room whose member count has reached its capacity fails
  with \<open>RoomFull\<close>; in both cases the world is unchanged: the membership, the
  connection's room binding and the log of broadcasts are as before.
\<close>

theorem enterRoom_failure:
  assumes "sockets w c = Some d" and "data_user d = Some name"
  shows "(rooms w r = None \<longrightarrow> enterRoom c r w = (Threw RoomNotFound, w)) \<and>
         (\<forall>rm. rooms w r = Some rm \<and> r \<noteq> LOBBY_ID \<and> capacity rm \<le> length (users rm) \<longrightarrow>
               enterRoom c r w = (Threw RoomFull, w))"
  using assms by (simp add: enterRoom_def clientUser_def roomsService_enterRoom_def)

theorem enterRoom_failure_witness:
  "enterRoom ''sC'' ''r9'' world_full_room = (Threw RoomNotFound, world_full_room) \<and>
   enterRoom ''sC'' ''r1'' world_full_room = (Threw RoomFull, world_full_room) \<and>
   roomsService_roomUserCount world_full_room (Some ''r1'') = Some 2 \<and>
   map_option capacity (rooms world_full_room ''r1'') = Some 2"
proof -
  let ?dC = "\<lparr>data_user = Some ''C'', data_roomId = Some ''lobby'', data_passed = False,
              joined = {''lobby''}\<rparr>"
  let ?rm = "\<lparr>roomName = ''room'', capacity = 2, state = Waiting,
              users = [\<lparr>socketId = ''sA'', userName = ''A'', ready = False, passed = None,
                        itemList = []\<rparr>,
                       \<lparr>socketId = ''sB'', userName = ''B'', ready = False, passed = None,
                        itemList = []\<rparr>],
              timer = None, itemCreator = None\<rparr>"
  have h1: "sockets world_full_room ''sC'' = Some ?dC"
    unfolding world_full_room_def by code_simp
  have h2: "data_user ?dC = Some ''C''" by simp
  have h3: "rooms world_full_room ''r9'' = None"
    unfolding world_full_room_def by code_simp
  have h4: "rooms world_full_room ''r1'' = Some ?rm"
    unfolding world_full_room_def by code_simp
  have h5: "''r1'' \<noteq> LOBBY_ID" by (simp add: LOBBY_ID_def)
  have h6: "roomsService_roomUserCount world_full_room (Some ''r1'') = Some 2"
    unfolding world_full_room_def by code_simp
  from enterRoom_failure [OF h1 h2, of "''r9''"] enterRoom_failure [OF h1 h2, of "''r1''"]
    h3 h4 h5 h6
  show ?thesis by simp
qed

text \<open>
  Claim C8, at a failing input. A and B are the members of room \<open>r1\<close> and C is in the
  Lobby. A kicks C: the service answers \<open>NotAMember\<close>, nothing is emitted and the
  membership of \<open>r1\<close> is unchanged, but the handler does not return the status: the
  target socket it looks up is \<^verbatim>\<open>undefined\<close>, so it ends with a \<open>TypeError\<close> at
  \<^verbatim>\<open>targetSocket.leave\<close>.
\<close>

theorem kick_non_member_throws:
  "members world_full_room ''r1'' = [''A'', ''B''] \<and>
   fst (roomsService_kick (Some ''r1'') ''A'' ''C'' world_full_room) = NotAMember \<and>
   fst (kick ''sA'' ''C'' world_full_room) = Threw TypeError \<and>
   emitted (snd (kick ''sA'' ''C'' world_full_room)) = emitted world_full_room \<and>
   members (snd (kick ''sA'' ''C'' world_full_room)) ''r1'' = [''A'', ''B'']"
  unfolding world_full_room_def by code_simp




section \<open>Starting a round\<close>

lemma noNewPlaying_refl [simp]: "noNewPlaying w w"
  by (simp add: noNewPlaying_def)

lemma noNewPlaying_trans: "noNewPlaying w w1 \<Longrightarrow> noNewPlaying w1 w2 \<Longrightarrow> noNewPlaying w w2"
  by (simp add: noNewPlaying_def)

lemma noNewPlaying_frame [simp]:
  "noNewPlaying w (emit t e w1) = noNewPlaying w w1"
  "noNewPlaying w (updSocket s f w1) = noNewPlaying w w1"
  "noNewPlaying w (clearTimeout ho w1) = noNewPlaying w w1"
  "noNewPlaying w (clearInterval ho w1) = noNewPlaying w w1"
  "noNewPlaying w (socket_leave s rid w1) = noNewPlaying w w1"
  "noNewPlaying w (w1\<lparr>socketIds := a\<rparr>) = noNewPlaying w w1"
  "noNewPlaying w (w1\<lparr>sockets := b\<rparr>) = noNewPlaying w w1"
  "noNewPlaying w (w1\<lparr>timeouts := c\<rparr>) = noNewPlaying w w1"
  "noNewPlaying w (w1\<lparr>intervals := c\<rparr>) = noNewPlaying w w1"
  "noNewPlaying w (w1\<lparr>nextHandle := n\<rparr>) = noNewPlaying w w1"
  "noNewPlaying w (w1\<lparr>starting := l\<rparr>) = noNewPlaying w w1"
  "noNewPlaying w (w1\<lparr>handshaking := k\<rparr>) = noNewPlaying w w1"
  by (simp_all add: noNewPlaying_def roomState_def roomsService_getGameRoom_def socket_leave_def
      split: option.splits)

lemma noNewPlaying_updRoom:
  assumes "\<And>rm. state (f rm) = Playing \<Longrightarrow> state rm = Playing" and "noNewPlaying w w1"
  shows "noNewPlaying w (updRoom rid f w1)"
proof -
  have "noNewPlaying w1 (updRoom rid f w1)"
    using assms(1)
    by (auto simp: noNewPlaying_def roomState_def roomsService_getGameRoom_def updRoom_def
        split: option.splits if_splits)
  with assms(2) show ?thesis by (rule noNewPlaying_trans)
qed

lemma noNewPlaying_exitRoom:
  assumes "noNewPlaying w w1"
  shows "noNewPlaying w (snd (roomsService_exitRoom rid name w1))"
proof -
  have "noNewPlaying w1 (snd (roomsService_exitRoom rid name w1))"
    by (auto simp: noNewPlaying_def roomState_def roomsService_getGameRoom_def
        roomsService_exitRoom_def removeUser_def split: option.splits if_splits)
  with assms show ?thesis by (rule noNewPlaying_trans)
qed

lemma noNewPlaying_enterRoom:
  "roomsService_enterRoom rid prev m w1 = Inr w2 \<Longrightarrow> noNewPlaying w w1 \<Longrightarrow> noNewPlaying w w2"
  by (auto simp: roomsService_enterRoom_def removeUser_def split: option.splits if_splits
      intro!: noNewPlaying_updRoom)

lemma noNewPlaying_switchReady:
  "noNewPlaying w w1 \<Longrightarrow> noNewPlaying w (snd (roomsService_switchReady rid name w1))"
  by (auto simp: roomsService_switchReady_def split: option.splits intro!: noNewPlaying_updRoom)

lemma noNewPlaying_kick:
  "noNewPlaying w w1 \<Longrightarrow> noNewPlaying w (snd (roomsService_kick rid by tgt w1))"
  by (auto simp: roomsService_kick_def split: option.splits intro!: noNewPlaying_exitRoom)

lemma noNewPlaying_useItem:
  "noNewPlaying w w1 \<Longrightarrow> noNewPlaying w (snd (roomsService_useItem rid name it w1))"
  by (auto simp: roomsService_useItem_def split: option.splits intro!: noNewPlaying_updRoom)

lemma noNewPlaying_assignItem:
  "noNewPlaying w w1 \<Longrightarrow> noNewPlaying w (roomsService_assignItem rid name it w1)"
  by (auto simp: roomsService_assignItem_def intro!: noNewPlaying_updRoom)

lemma noNewPlaying_setTimer:
  "noNewPlaying w w1 \<Longrightarrow> noNewPlaying w (roomsService_setTimer rid h w1)"
  by (auto simp: roomsService_setTimer_def intro!: noNewPlaying_updRoom)

lemma noNewPlaying_gameOver:
  "noNewPlaying w w1 \<Longrightarrow> noNewPlaying w (roomsService_gameOver rid w1)"
  by (auto simp: roomsService_gameOver_def split: option.splits intro!: noNewPlaying_updRoom)

lemma noNewPlaying_roundEnd: "noNewPlaying w w1 \<Longrightarrow> noNewPlaying w (roundEnd rid w1)"
  by (simp add: roundEnd_def noNewPlaying_gameOver)

lemmas noNewPlaying_intros =
  noNewPlaying_roundEnd noNewPlaying_exitRoom noNewPlaying_switchReady noNewPlaying_kick
  noNewPlaying_useItem noNewPlaying_assignItem noNewPlaying_setTimer noNewPlaying_gameOver

lemma noNewPlaying_handleDisconnect: "noNewPlaying w (handleDisconnect s w)"
  by (auto simp: handleDisconnect_def Let_def roomsService_deleteSocketId_def
      split: option.splits prod.splits intro!: noNewPlaying_intros)

lemma noNewPlaying_socket_disconnect: "noNewPlaying w (socket_disconnect s w)"
  by (simp add: socket_disconnect_def noNewPlaying_handleDisconnect)

lemma noNewPlaying_socket_disconnect_after:
  "noNewPlaying w w1 \<Longrightarrow> noNewPlaying w (socket_disconnect s w1)"
  by (erule noNewPlaying_trans) (rule noNewPlaying_socket_disconnect)

lemma noNewPlaying_handleConnection:
  "noNewPlaying w w1 \<Longrightarrow> noNewPlaying w (handleConnection s hs w1)"
  by (cases hs)
    (auto simp: handleConnection_def intro!: noNewPlaying_socket_disconnect_after)

lemma noNewPlaying_handleConnection_resume:
  "noNewPlaying w w1 \<Longrightarrow> noNewPlaying w (handleConnection_resume s found w1)"
  by (cases found)
    (auto simp: handleConnection_resume_def roomsService_registerSocketId_def
      intro!: noNewPlaying_socket_disconnect_after)

lemma noNewPlaying_enterLobby: "noNewPlaying w (snd (enterLobby c w))"
  by (auto simp: enterLobby_def split: option.splits prod.splits sum.splits
      intro: noNewPlaying_enterRoom)

lemma noNewPlaying_exitLobby: "noNewPlaying w (snd (exitLobby c w))"
  by (auto simp: exitLobby_def split: option.splits prod.splits intro!: noNewPlaying_intros)

lemma noNewPlaying_createRoom:
  "rooms w newId = None \<Longrightarrow> noNewPlaying w (snd (createRoom c name cap newId w))"
  by (auto simp: createRoom_def Let_def roomsService_createRoom_def noNewPlaying_def
      roomState_def roomsService_getGameRoom_def split: option.splits prod.splits)

lemma noNewPlaying_enterRoom_handler: "noNewPlaying w (snd (enterRoom c r w))"
  by (auto simp: enterRoom_def Let_def split: option.splits prod.splits sum.splits
      intro: noNewPlaying_enterRoom)

lemma noNewPlaying_exitRoom_handler: "noNewPlaying w (snd (exitRoom c w))"
  by (auto simp: exitRoom_def Let_def case_prod_beta split: option.splits prod.splits
      intro!: noNewPlaying_intros)

lemma noNewPlaying_ready: "noNewPlaying w (snd (ready_handler c w))"
  by (auto simp: ready_handler_def Let_def case_prod_beta split: option.splits prod.splits
      intro!: noNewPlaying_intros)

lemma noNewPlaying_kick_handler: "noNewPlaying w (snd (kick c tgt w))"
  by (auto simp: kick_def socket_def Let_def case_prod_beta split: option.splits prod.splits
      intro!: noNewPlaying_intros)

lemma noNewPlaying_useItem_handler: "noNewPlaying w (snd (useItem c it w))"
  by (auto simp: useItem_def Let_def case_prod_beta split: option.splits prod.splits
      intro!: noNewPlaying_intros)

lemma noNewPlaying_pass: "noNewPlaying w (snd (pass c w))"
  by (auto simp: pass_def Let_def split: option.splits intro!: noNewPlaying_intros)

lemma noNewPlaying_fireTimeout: "noNewPlaying w (fireTimeout h w)"
  by (auto simp: fireTimeout_def split: option.splits intro!: noNewPlaying_intros)

lemma noNewPlaying_createItem: "noNewPlaying w (snd (createItem rid pick w))"
  by (simp add: createItem_def createItem_each_throws)

lemma start_roomState:
  "roomState (snd (start rid ps w)) (Some r) =
     (if rid = Some r \<and> roomState w (Some r) = Some Waiting then Some Playing
      else roomState w (Some r))"
  by (auto simp: start_def Let_def roomsService_changeRoomState_def roomState_def
      roomsService_getGameRoom_def roomsService_setItemCreator_def updRoom_def
      split: option.splits sum.splits)

lemma step_noNewPlaying:
  "(\<And>rid ps. a \<noteq> ProblemsArrive rid ps) \<Longrightarrow> noNewPlaying w (step a w)"
  by (cases a)
    (auto simp: noNewPlaying_handleConnection noNewPlaying_handleConnection_resume
      noNewPlaying_socket_disconnect
      noNewPlaying_enterLobby noNewPlaying_exitLobby noNewPlaying_createRoom
      noNewPlaying_enterRoom_handler noNewPlaying_exitRoom_handler noNewPlaying_ready
      noNewPlaying_kick_handler noNewPlaying_useItem_handler noNewPlaying_pass
      noNewPlaying_fireTimeout noNewPlaying_createItem split: option.splits)

lemma step_to_playing:
  assumes "roomState w (Some r) \<noteq> Some Playing"
    and "roomState (step a w) (Some r) = Some Playing"
  shows "(\<exists>ps. a = ProblemsArrive (Some r) ps) \<and> Some r \<in> set (starting w) \<and>
         roomState w (Some r) = Some Waiting"
proof (cases "\<exists>rid ps. a = ProblemsArrive rid ps")
  case False
  then have "noNewPlaying w (step a w)" by (intro step_noNewPlaying) auto
  with assms show ?thesis by (auto simp: noNewPlaying_def)
next
  case True
  then obtain rid ps where a: "a = ProblemsArrive rid ps" by blast
  have eq: "roomState (w\<lparr>starting := l\<rparr>) (Some r) = roomState w (Some r)" for l
    by (simp add: roomState_def roomsService_getGameRoom_def)
  from assms show ?thesis
    unfolding a by (auto simp: start_roomState eq split: if_splits)
qed

lemma service_starting [simp]:
  "starting (snd (roomsService_switchReady rid name w)) = starting w"
  "starting (snd (roomsService_kick rid by tgt w)) = starting w"
  "starting (snd (roomsService_useItem rid name it w)) = starting w"
  "starting (roomsService_assignItem rid name it w) = starting w"
  "starting (roomsService_setTimer rid h w) = starting w"
  "starting (roomsService_setItemCreator rid h w) = starting w"
  "starting (roomsService_createRoom nm cap newId w) = starting w"
  "starting (roomsService_registerSocketId name s w) = starting w"
  "starting (roomsService_deleteSocketId name w) = starting w"
  "starting (socket_leave s rid w) = starting w"
  by (simp_all add: roomsService_switchReady_def roomsService_kick_def roomsService_useItem_def
      roomsService_assignItem_def roomsService_setTimer_def roomsService_setItemCreator_def
      roomsService_createRoom_def roomsService_registerSocketId_def
      roomsService_deleteSocketId_def socket_leave_def split: option.splits)

lemma enterRoom_starting:
  "roomsService_enterRoom rid prev m w = Inr w1 \<Longrightarrow> starting w1 = starting w"
  by (auto simp: roomsService_enterRoom_def split: option.splits if_splits)

lemma changeRoomState_starting:
  "roomsService_changeRoomState rid st w = Inr w1 \<Longrightarrow> starting w1 = starting w"
  by (auto simp: roomsService_changeRoomState_def split: option.splits if_splits)

lemma handleDisconnect_starting [simp]: "starting (handleDisconnect s w) = starting w"
  by (simp add: handleDisconnect_def Let_def split: option.splits prod.splits)

lemma socket_disconnect_starting [simp]: "starting (socket_disconnect s w) = starting w"
  by (simp add: socket_disconnect_def)

lemma handleConnection_starting [simp]:
  "starting (handleConnection s hs w) = starting w"
  "starting (handleConnection_resume s found w) = starting w"
  by (cases hs; cases found;
      simp add: handleConnection_def handleConnection_resume_def)+

lemma createItem_each_starting [simp]:
  "starting (snd (createItem_each rid pick sids w)) = starting w"
  by (simp add: createItem_each_throws)

lemma start_starting [simp]: "starting (snd (start rid ps w)) = starting w"
  by (auto simp: start_def Let_def split: sum.splits dest: changeRoomState_starting)

lemma allUserReady_frame [simp]:
  "roomsService_allUserReady (emit t e w) rid = roomsService_allUserReady w rid"
  "roomsService_allUserReady (w\<lparr>starting := l\<rparr>) rid = roomsService_allUserReady w rid"
  by (simp_all add: roomsService_allUserReady_def roomsService_getGameRoom_def
      split: option.splits)

lemma ready_starting:
  "starting (snd (ready_handler c w)) =
     (case clientUser w c of
        None \<Rightarrow> starting w
      | Some (d, name) \<Rightarrow>
          starting w @
          (if roomsService_allUserReady (snd (ready_handler c w)) (data_roomId d)
           then [data_roomId d] else []))"
  by (simp add: ready_handler_def Let_def case_prod_beta split: option.splits)

lemma handler_starting [simp]:
  "starting (snd (enterLobby c w)) = starting w"
  "starting (snd (exitLobby c w)) = starting w"
  "starting (snd (createRoom c nm cap newId w)) = starting w"
  "starting (snd (enterRoom c r w)) = starting w"
  "starting (snd (exitRoom c w)) = starting w"
  "starting (snd (kick c tgt w)) = starting w"
  "starting (snd (useItem c it w)) = starting w"
  "starting (roundEnd rid w) = starting w"
  "starting (snd (createItem rid pick w)) = starting w"
  by (auto simp: enterLobby_def exitLobby_def createRoom_def
      enterRoom_def exitRoom_def kick_def socket_def useItem_def roundEnd_def createItem_def
      Let_def case_prod_beta split: option.splits sum.splits dest: enterRoom_starting)

lemma pass_starting [simp]: "starting (snd (pass c w)) = starting w"
  by (simp add: pass_def Let_def split: option.splits)

lemma fireTimeout_starting [simp]: "starting (fireTimeout h w) = starting w"
  by (simp add: fireTimeout_def split: option.splits)

lemma step_starting:
  assumes "rid \<in> set (starting (step a w))" and "rid \<notin> set (starting w)"
  shows "(\<exists>c. a = Ready c) \<and> roomsService_allUserReady (step a w) rid"
proof (cases a)
  case (Ready c)
  with assms show ?thesis
    by (auto simp: ready_starting split: option.splits if_splits)
next
  case (ProblemsArrive r ps)
  with assms show ?thesis
    by (auto split: if_splits dest: notin_set_remove1)
qed (use assms in \<open>auto split: option.splits if_splits\<close>)

text \<open>
  Claim C5, as the code has it. A room goes from \<open>Waiting\<close> to \<open>Playing\<close> only when the
  problems of a pending \<^verbatim>\<open>start\<close> of that room arrive, and then it always does. A
  \<^verbatim>\<open>start\<close> becomes pending only in the \<^verbatim>\<open>ready\<close> handler, exactly when right after
  the toggle every member of the room is ready and the room has at least two members.
  Readiness is not looked at again when the problems arrive.
\<close>

theorem waiting_to_playing:
  "(roomState w (Some r) = Some Waiting \<and> roomState (step a w) (Some r) = Some Playing \<longrightarrow>
      (\<exists>ps. a = ProblemsArrive (Some r) ps) \<and> Some r \<in> set (starting w)) \<and>
   (Some r \<in> set (starting w) \<and> roomState w (Some r) = Some Waiting \<longrightarrow>
      roomState (step (ProblemsArrive (Some r) ps) w) (Some r) = Some Playing) \<and>
   (rid \<in> set (starting (step a w)) \<and> rid \<notin> set (starting w) \<longrightarrow>
      (\<exists>c. a = Ready c) \<and> roomsService_allUserReady (step a w) rid) \<and>
   (sockets w c = Some d \<and> data_user d = Some name \<and>
    roomsService_allUserReady (step (Ready c) w) (data_roomId d) \<longrightarrow>
      data_roomId d \<in> set (starting (step (Ready c) w))) \<and>
   (roomsService_allUserReady w rid \<longleftrightarrow>
      (\<exists>rm. roomsService_getGameRoom w rid = Some rm \<and> (\<forall>u \<in> set (users rm). ready u) \<and>
            2 \<le> length (users rm)))"
proof (intro conjI impI)
  assume "roomState w (Some r) = Some Waiting \<and> roomState (step a w) (Some r) = Some Playing"
  then have "roomState w (Some r) \<noteq> Some Playing" "roomState (step a w) (Some r) = Some Playing"
    by simp_all
  from step_to_playing [OF this]
  show "\<exists>ps. a = ProblemsArrive (Some r) ps" and "Some r \<in> set (starting w)" by simp_all
next
  have eq: "roomState (w\<lparr>starting := l\<rparr>) (Some r) = roomState w (Some r)" for l
    by (simp add: roomState_def roomsService_getGameRoom_def)
  assume "Some r \<in> set (starting w) \<and> roomState w (Some r) = Some Waiting"
  then show "roomState (step (ProblemsArrive (Some r) ps) w) (Some r) = Some Playing"
    by (simp add: start_roomState eq)
next
  assume "rid \<in> set (starting (step a w)) \<and> rid \<notin> set (starting w)"
  then have "rid \<in> set (starting (step a w))" "rid \<notin> set (starting w)" by simp_all
  from step_starting [OF this]
  show "\<exists>c. a = Ready c" and "roomsService_allUserReady (step a w) rid" by simp_all
next
  assume "sockets w c = Some d \<and> data_user d = Some name \<and>
    roomsService_allUserReady (step (Ready c) w) (data_roomId d)"
  then show "data_roomId d \<in> set (starting (step (Ready c) w))"
    by (simp add: ready_starting clientUser_def)
next
  show "roomsService_allUserReady w rid \<longleftrightarrow>
      (\<exists>rm. roomsService_getGameRoom w rid = Some rm \<and> (\<forall>u \<in> set (users rm). ready u) \<and>
            2 \<le> length (users rm))"
    by (auto simp: roomsService_allUserReady_def list_all_iff split: option.splits)
qed

theorem waiting_to_playing_witness:
  "roomsService_allUserReady (step (Ready ''sB'') world_one_ready) (Some ''r1'') \<and>
   Some ''r1'' \<in> set (starting (step (Ready ''sB'') world_one_ready)) \<and>
   roomState world_starting (Some ''r1'') = Some Waiting \<and>
   roomState (step (ProblemsArrive (Some ''r1'') [''p1'']) world_starting) (Some ''r1'') =
     Some Playing"
proof -
  let ?dB = "\<lparr>data_user = Some ''B'', data_roomId = Some ''r1'', data_passed = False,
              joined = {''r1''}\<rparr>"
  have h1: "sockets world_one_ready ''sB'' = Some ?dB"
    unfolding world_one_ready_def by code_simp
  have h2: "roomsService_allUserReady (step (Ready ''sB'') world_one_ready) (Some ''r1'')"
    unfolding world_one_ready_def by code_simp
  have h3: "Some ''r1'' \<in> set (starting world_starting)"
    unfolding world_starting_def by code_simp
  have h4: "roomState world_starting (Some ''r1'') = Some Waiting"
    unfolding world_starting_def by code_simp
  from waiting_to_playing [of world_one_ready _ _ _ _ "''sB''" ?dB "''B''"]
    waiting_to_playing [of world_starting "''r1''" _ "[''p1'']"] h1 h2 h3 h4
  show ?thesis by simp
qed

text \<open>The last toggle need not have found everybody ready: A takes the readiness back
  while the start that B's toggle began still waits for the problems; the room goes to
  \<open>Playing\<close> all the same.\<close>

theorem waiting_to_playing_counterexample:
  "\<not> roomsService_allUserReady (run run_unready_before_start init) (Some ''r1'') \<and>
   roomState (run run_unready_before_start init) (Some ''r1'') = Some Waiting \<and>
   roomState (run (run_unready_before_start @ [ProblemsArrive (Some ''r1'') [''p1'']]) init)
     (Some ''r1'') = Some Playing"
  by code_simp

section \<open>Membership\<close>

lemma roomOf_conn:
  "roomOf w u =
     (case socketIds w u of
        None \<Rightarrow> None
      | Some s \<Rightarrow>
          (case conn w s of
             None \<Rightarrow> None
           | Some p \<Rightarrow> if fst p = Some u then snd p else None))"
  by (simp add: roomOf_def conn_def split: option.splits)

lemma membership_inv_conn:
  "membership_inv w \<longleftrightarrow>
     (\<forall>r. distinct (members w r)) \<and>
     (\<forall>r u. u \<in> set (members w r) \<longrightarrow> roomOf w u = Some r) \<and>
     (\<forall>s u rid. conn w s = Some (Some u, rid) \<longrightarrow> socketIds w u = Some s) \<and>
     distinct (handshaking w) \<and>
     (\<forall>s u rid. s \<in> set (handshaking w) \<longrightarrow> conn w s \<noteq> Some (Some u, rid))"
proof -
  have a: "(\<forall>s d u. sockets w s = Some d \<and> data_user d = Some u \<longrightarrow> socketIds w u = Some s) \<longleftrightarrow>
           (\<forall>s u rid. conn w s = Some (Some u, rid) \<longrightarrow> socketIds w u = Some s)"
    by (auto simp: conn_def)
  have b: "(\<forall>s d. s \<in> set (handshaking w) \<and> sockets w s = Some d \<longrightarrow> data_user d = None) \<longleftrightarrow>
           (\<forall>s u rid. s \<in> set (handshaking w) \<longrightarrow> conn w s \<noteq> Some (Some u, rid))"
    by (fastforce simp: conn_def)
  show ?thesis unfolding membership_inv_def a b ..
qed

lemma handshake_kept:
  assumes inv: "membership_inv w" and h: "handshaking w' = handshaking w"
    and c: "\<forall>s u rid. conn w' s = Some (Some u, rid) \<longrightarrow> (\<exists>rid'. conn w s = Some (Some u, rid'))"
  shows "distinct (handshaking w') \<and>
         (\<forall>s u rid. s \<in> set (handshaking w') \<longrightarrow> conn w' s \<noteq> Some (Some u, rid))"
proof (intro conjI allI impI)
  from inv show "distinct (handshaking w')" by (simp add: membership_inv_conn h)
  fix s u rid
  assume "s \<in> set (handshaking w')"
  with inv have "\<And>rid'. conn w s \<noteq> Some (Some u, rid')" by (simp add: membership_inv_conn h)
  with c show "conn w' s \<noteq> Some (Some u, rid)" by blast
qed

lemma roomOf_cong:
  "socketIds w' = socketIds w \<Longrightarrow> conn w' = conn w \<Longrightarrow> roomOf w' = roomOf w"
  by (rule ext) (auto simp: roomOf_conn split: option.splits)

lemma shrinks_inv:
  assumes "shrinks w w'" and "membership_inv w"
  shows "membership_inv w'"
proof -
  from assms(1) have s: "socketIds w' = socketIds w" and c: "conn w' = conn w"
    and h: "handshaking w' = handshaking w"
    and m: "\<And>r. \<exists>P. members w' r = filter P (members w r)"
    by (simp_all add: shrinks_def)
  have "\<forall>s u rid. conn w' s = Some (Some u, rid) \<longrightarrow> (\<exists>rid'. conn w s = Some (Some u, rid'))"
    by (simp add: c)
  note i45 = handshake_kept [OF assms(2) h this]
  have ro: "roomOf w' = roomOf w" using s c by (rule roomOf_cong)
  have d: "distinct (members w' r)" for r
    using m [of r] assms(2) by (auto simp: membership_inv_conn)
  have sub: "set (members w' r) \<subseteq> set (members w r)" for r
    using m [of r] by auto
  have i2: "roomOf w' u = Some r" if "u \<in> set (members w' r)" for u r
  proof -
    from that sub have "u \<in> set (members w r)" by blast
    with assms(2) show ?thesis by (simp add: membership_inv_conn ro)
  qed
  have i3: "socketIds w' u = Some t" if "conn w' t = Some (Some u, rid)" for t u rid
    using that assms(2) by (auto simp: membership_inv_conn s c)
  show ?thesis
    unfolding membership_inv_conn using d i2 i3 i45 by blast
qed

lemma inv_enter:
  assumes inv: "membership_inv w" and cu: "conn w c = Some (Some name, prev)"
    and m: "\<And>r'. members w' r' =
              (if prev = Some r' then filter (\<lambda>u. u \<noteq> name) (members w r') else members w r') @
              (if r' = r then [name] else [])"
    and s: "socketIds w' = socketIds w"
    and c: "conn w' = (conn w)(c \<mapsto> (Some name, Some r))"
    and h: "handshaking w' = handshaking w"
  shows "membership_inv w'"
proof -
  from inv cu have reg: "socketIds w name = Some c" by (auto simp: membership_inv_conn)
  then have ro_name: "roomOf w name = prev" using cu by (simp add: roomOf_conn)
  have ro': "roomOf w' u = (if u = name then Some r else roomOf w u)" for u
    using reg cu by (auto simp: roomOf_conn s c split: option.splits)
  have notin: "name \<notin> set (members w r')" if "prev \<noteq> Some r'" for r'
    using inv ro_name that by (auto simp: membership_inv_conn)
  have d: "distinct (members w' r')" for r'
    using inv notin [of r'] by (auto simp: m membership_inv_conn)
  have i2: "roomOf w' u = Some r'" if "u \<in> set (members w' r')" for u r'
    using that inv notin [of r'] by (auto simp: m ro' membership_inv_conn split: if_splits)
  have i3: "socketIds w' u = Some s'" if "conn w' s' = Some (Some u, rid)" for s' u rid
    using that inv reg by (auto simp: c s membership_inv_conn split: if_splits)
  have k: "\<forall>s' u rid0. conn w' s' = Some (Some u, rid0) \<longrightarrow>
             (\<exists>rid'. conn w s' = Some (Some u, rid'))"
    using cu by (auto simp: c split: if_splits)
  note i45 = handshake_kept [OF inv h k]
  show ?thesis
    unfolding membership_inv_conn using d i2 i3 i45 by blast
qed

lemma inv_kick:
  assumes inv: "membership_inv w" and tgt: "tgt \<in> set (members w r0)"
    and m: "\<And>r'. members w' r' =
              (if r' = r0 then filter (\<lambda>u. u \<noteq> tgt) (members w r') else members w r')"
    and s: "socketIds w' = socketIds w"
    and c: "conn w' =
              (case socketIds w tgt of
                 None \<Rightarrow> conn w
               | Some t \<Rightarrow>
                   (case conn w t of
                      None \<Rightarrow> conn w
                    | Some p \<Rightarrow> (conn w)(t \<mapsto> (fst p, None))))"
    and h: "handshaking w' = handshaking w"
  shows "membership_inv w'"
proof -
  from inv tgt have ro: "roomOf w tgt = Some r0" by (auto simp: membership_inv_conn)
  then obtain t where t: "socketIds w tgt = Some t" "conn w t = Some (Some tgt, Some r0)"
    by (auto simp: roomOf_conn split: option.splits if_splits prod.splits)
  then have c': "conn w' = (conn w)(t \<mapsto> (Some tgt, None))" by (simp add: c)
  have ro': "roomOf w' u = roomOf w u" if "u \<noteq> tgt" for u
    using that t by (auto simp: roomOf_conn s c' split: option.splits)
  have d: "distinct (members w' r')" for r'
    using inv by (auto simp: m membership_inv_conn)
  have gone: "tgt \<notin> set (members w' r')" for r'
    using inv ro by (auto simp: m membership_inv_conn)
  have i2: "roomOf w' u = Some r'" if "u \<in> set (members w' r')" for u r'
  proof -
    from that gone have "u \<noteq> tgt" by blast
    moreover from that have "u \<in> set (members w r')" by (auto simp: m split: if_splits)
    ultimately show ?thesis using inv by (simp add: ro' membership_inv_conn)
  qed
  have i3: "socketIds w' u = Some s'" if "conn w' s' = Some (Some u, rid)" for s' u rid
    using that inv t by (auto simp: c' s membership_inv_conn split: if_splits)
  have k: "\<forall>s' u rid0. conn w' s' = Some (Some u, rid0) \<longrightarrow>
             (\<exists>rid'. conn w s' = Some (Some u, rid'))"
    using t by (auto simp: c' split: if_splits)
  note i45 = handshake_kept [OF inv h k]
  show ?thesis
    unfolding membership_inv_conn using d i2 i3 i45 by blast
qed

lemma inv_disconnect:
  assumes inv: "membership_inv w" and cu: "conn w s = Some (Some name, rid)"
    and m: "\<And>r'. members w' r' =
              (if rid = Some r' then filter (\<lambda>u. u \<noteq> name) (members w r') else members w r')"
    and si: "socketIds w' = (socketIds w)(name := None)"
    and c: "conn w' = (conn w)(s := None)"
    and h: "handshaking w' = handshaking w"
  shows "membership_inv w'"
proof -
  from inv cu have reg: "socketIds w name = Some s" by (auto simp: membership_inv_conn)
  then have ro_name: "roomOf w name = rid" using cu by (simp add: roomOf_conn)
  have gone: "name \<notin> set (members w' r')" for r'
    using inv ro_name by (auto simp: m membership_inv_conn)
  have ro': "roomOf w' u = roomOf w u" if "u \<noteq> name" "roomOf w u \<noteq> None" for u
    using that cu by (auto simp: roomOf_conn si c split: option.splits if_splits)
  have d: "distinct (members w' r')" for r'
    using inv by (auto simp: m membership_inv_conn)
  have i2: "roomOf w' u = Some r'" if "u \<in> set (members w' r')" for u r'
  proof -
    from that gone have "u \<noteq> name" by blast
    moreover from that have "u \<in> set (members w r')" by (auto simp: m split: if_splits)
    then have "roomOf w u = Some r'" using inv by (simp add: membership_inv_conn)
    ultimately show ?thesis using ro' [of u] by simp
  qed
  have i3: "socketIds w' u = Some s'" if "conn w' s' = Some (Some u, rid')" for s' u rid'
  proof -
    from that have s': "s' \<noteq> s" "conn w s' = Some (Some u, rid')"
      by (auto simp: c split: if_splits)
    then have "socketIds w u = Some s'" using inv by (auto simp: membership_inv_conn)
    with reg s' show ?thesis by (auto simp: si)
  qed
  have k: "\<forall>s' u rid0. conn w' s' = Some (Some u, rid0) \<longrightarrow>
             (\<exists>rid'. conn w s' = Some (Some u, rid'))"
    using inv by (auto simp: c split: if_splits)
  note i45 = handshake_kept [OF inv h k]
  show ?thesis
    unfolding membership_inv_conn using d i2 i3 i45 by blast
qed

lemma inv_forget_guest:
  assumes inv: "membership_inv w" and cu: "conn w s = Some (None, rid)"
    and m: "\<And>r'. members w' r' = members w r'"
    and si: "socketIds w' = socketIds w"
    and c: "conn w' = (conn w)(s := None)"
    and h: "handshaking w' = handshaking w"
  shows "membership_inv w'"
proof -
  have ro': "roomOf w' u = roomOf w u" if "roomOf w u \<noteq> None" for u
    using that cu by (auto simp: roomOf_conn si c split: option.splits if_splits)
  have d: "distinct (members w' r')" for r'
    using inv by (simp add: m membership_inv_conn)
  have i2: "roomOf w' u = Some r'" if "u \<in> set (members w' r')" for u r'
    using that inv ro' [of u] by (auto simp: m membership_inv_conn)
  have i3: "socketIds w' u = Some s'" if "conn w' s' = Some (Some u, rid')" for s' u rid'
    using that inv by (auto simp: c si membership_inv_conn split: if_splits)
  have k: "\<forall>s' u rid0. conn w' s' = Some (Some u, rid0) \<longrightarrow>
             (\<exists>rid'. conn w s' = Some (Some u, rid'))"
    using inv by (auto simp: c split: if_splits)
  note i45 = handshake_kept [OF inv h k]
  show ?thesis
    unfolding membership_inv_conn using d i2 i3 i45 by blast
qed

text \<open>A new connection whose handshake is suspended.\<close>

lemma inv_new_socket:
  assumes inv: "membership_inv w" and fresh: "conn w s = None"
    and nh: "s \<notin> set (handshaking w)"
    and m: "\<And>r'. members w' r' = members w r'"
    and si: "socketIds w' = socketIds w"
    and c: "conn w' = (conn w)(s \<mapsto> (None, None))"
    and h: "handshaking w' = handshaking w @ [s]"
  shows "membership_inv w'"
proof -
  have ro': "roomOf w' u = roomOf w u" for u
    using fresh by (auto simp: roomOf_conn si c split: option.splits)
  have d: "distinct (members w' r')" for r'
    using inv by (simp add: m membership_inv_conn)
  have i2: "roomOf w' u = Some r'" if "u \<in> set (members w' r')" for u r'
    using that inv by (auto simp: m ro' membership_inv_conn)
  have i3: "socketIds w' u = Some s'" if "conn w' s' = Some (Some u, rid')" for s' u rid'
    using that inv by (auto simp: c si membership_inv_conn split: if_splits)
  have i4: "distinct (handshaking w')"
    using inv nh by (simp add: h membership_inv_conn)
  have i5: "conn w' s' \<noteq> Some (Some u, rid')" if "s' \<in> set (handshaking w')" for s' u rid'
    using that inv by (auto simp: h c membership_inv_conn)
  show ?thesis
    unfolding membership_inv_conn using d i2 i3 i4 i5 by blast
qed

text \<open>The end of a handshake: the user is written to a connection that carried none,
  or, when the connection is gone, only the registry changes.\<close>

lemma inv_bind:
  assumes inv: "membership_inv w" and cu: "conn w s = Some (None, rid)"
    and nh: "s \<notin> set (handshaking w)"
    and new: "socketIds w name = None"
    and m: "\<And>r'. members w' r' = members w r'"
    and si: "socketIds w' = (socketIds w)(name \<mapsto> s)"
    and c: "conn w' = (conn w)(s \<mapsto> (Some name, rid))"
    and h: "handshaking w' = handshaking w"
  shows "membership_inv w'"
proof -
  have ro': "roomOf w' u = roomOf w u" if "roomOf w u \<noteq> None" for u
    using that cu new by (auto simp: roomOf_conn si c split: option.splits if_splits)
  have d: "distinct (members w' r')" for r'
    using inv by (simp add: m membership_inv_conn)
  have i2: "roomOf w' u = Some r'" if "u \<in> set (members w' r')" for u r'
    using that inv ro' [of u] by (auto simp: m membership_inv_conn)
  have old: "socketIds w u = Some s'" if "conn w s' = Some (Some u, rid')" for s' u rid'
    using that inv unfolding membership_inv_conn by blast
  have i3: "socketIds w' u = Some s'" if "conn w' s' = Some (Some u, rid')" for s' u rid'
  proof (cases "s' = s")
    case True
    with that show ?thesis by (simp add: c si)
  next
    case False
    with that have "conn w s' = Some (Some u, rid')" by (simp add: c)
    from old [OF this] new show ?thesis by (auto simp: si)
  qed
  have i4: "distinct (handshaking w')"
    using inv by (simp add: h membership_inv_conn)
  have i5: "conn w' s' \<noteq> Some (Some u, rid')" if "s' \<in> set (handshaking w')" for s' u rid'
    using that inv nh by (auto simp: h c membership_inv_conn)
  show ?thesis
    unfolding membership_inv_conn using d i2 i3 i4 i5 by blast
qed

lemma inv_register_gone:
  assumes inv: "membership_inv w" and gone: "conn w s = None"
    and new: "socketIds w name = None"
    and m: "\<And>r'. members w' r' = members w r'"
    and si: "socketIds w' = (socketIds w)(name \<mapsto> s)"
    and c: "conn w' = conn w"
    and h: "handshaking w' = handshaking w"
  shows "membership_inv w'"
proof -
  have ro': "roomOf w' u = roomOf w u" if "roomOf w u \<noteq> None" for u
    using that gone new by (auto simp: roomOf_conn si c split: option.splits if_splits)
  have d: "distinct (members w' r')" for r'
    using inv by (simp add: m membership_inv_conn)
  have i2: "roomOf w' u = Some r'" if "u \<in> set (members w' r')" for u r'
    using that inv ro' [of u] by (auto simp: m membership_inv_conn)
  have i3: "socketIds w' u = Some s'" if "conn w' s' = Some (Some u, rid')" for s' u rid'
  proof -
    from that inv have "socketIds w u = Some s'" by (auto simp: c membership_inv_conn)
    with new show ?thesis by (auto simp: si)
  qed
  have k: "\<forall>s' u rid0. conn w' s' = Some (Some u, rid0) \<longrightarrow>
             (\<exists>rid'. conn w s' = Some (Some u, rid'))"
    using inv by (auto simp: c)
  note i45 = handshake_kept [OF inv h k]
  show ?thesis
    unfolding membership_inv_conn using d i2 i3 i45 by blast
qed

lemma members_frame [simp]:
  "members (emit t e w) = members w"
  "members (updSocket s f w) = members w"
  "members (clearTimeout ho w) = members w"
  "members (clearInterval ho w) = members w"
  "members (socket_leave s rid w) = members w"
  "members (w\<lparr>socketIds := a\<rparr>) = members w"
  "members (w\<lparr>sockets := b\<rparr>) = members w"
  "members (w\<lparr>timeouts := c\<rparr>) = members w"
  "members (w\<lparr>intervals := c\<rparr>) = members w"
  "members (w\<lparr>nextHandle := n\<rparr>) = members w"
  "members (w\<lparr>starting := l\<rparr>) = members w"
  "members (w\<lparr>handshaking := k\<rparr>) = members w"
  by (auto simp: members_def socket_leave_def fun_eq_iff split: option.splits)

lemma conn_frame [simp]:
  "conn (emit t e w) = conn w"
  "conn (updRoom rid g w) = conn w"
  "conn (clearTimeout ho w) = conn w"
  "conn (clearInterval ho w) = conn w"
  "conn (w\<lparr>socketIds := a\<rparr>) = conn w"
  "conn (w\<lparr>rooms := b\<rparr>) = conn w"
  "conn (w\<lparr>timeouts := c\<rparr>) = conn w"
  "conn (w\<lparr>intervals := c\<rparr>) = conn w"
  "conn (w\<lparr>nextHandle := n\<rparr>) = conn w"
  "conn (w\<lparr>starting := l\<rparr>) = conn w"
  "conn (w\<lparr>handshaking := k\<rparr>) = conn w"
  by (auto simp: conn_def fun_eq_iff)

lemma conn_updSocket:
  "conn (updSocket s f w) =
     (case sockets w s of
        None \<Rightarrow> conn w
      | Some d \<Rightarrow> (conn w)(s \<mapsto> (data_user (f d), data_roomId (f d))))"
  by (auto simp: conn_def updSocket_def fun_eq_iff split: option.splits)

lemma conn_socket_leave [simp]: "conn (socket_leave s rid w) = conn w"
  by (cases rid) (auto simp: socket_leave_def conn_updSocket conn_def fun_eq_iff split: option.splits)

lemma socket_leave_socketIds [simp]:
  "socketIds (socket_leave s rid w) = socketIds w"
  "handshaking (socket_leave s rid w) = handshaking w"
  by (cases rid; simp add: socket_leave_def)+

lemma members_updRoom:
  "members (updRoom rid g w) r =
     (if rid = Some r
      then (case rooms w r of None \<Rightarrow> [] | Some rm \<Rightarrow> map userName (users (g rm)))
      else members w r)"
  by (auto simp: members_def updRoom_def split: option.splits)

lemma members_exitRoom:
  "members (snd (roomsService_exitRoom rid name w)) r =
     (if rid = Some r then filter (\<lambda>u. u \<noteq> name) (members w r) else members w r)"
  by (auto simp: members_def roomsService_exitRoom_def removeUser_def filter_map comp_def
      split: option.splits)

lemma conn_exitRoom [simp]: "conn (snd (roomsService_exitRoom rid name w)) = conn w"
  by (simp add: conn_def fun_eq_iff)

lemma shrinks_refl [simp]: "shrinks w w"
  by (auto simp: shrinks_def intro: exI [of _ "\<lambda>_. True"])

lemma shrinks_trans:
  assumes "shrinks w w1" and "shrinks w1 w2"
  shows "shrinks w w2"
proof -
  have "\<exists>P. members w2 r = filter P (members w r)" for r
  proof -
    from assms obtain P Q where "members w1 r = filter P (members w r)"
      "members w2 r = filter Q (members w1 r)"
      unfolding shrinks_def by metis
    then have "members w2 r = filter (\<lambda>x. P x \<and> Q x) (members w r)" by simp
    then show ?thesis by (rule exI [where x = "\<lambda>x. P x \<and> Q x"])
  qed
  with assms show ?thesis by (simp add: shrinks_def)
qed

lemma shrinks_frame [simp]:
  "shrinks w (emit t e w1) = shrinks w w1"
  "shrinks w (clearTimeout ho w1) = shrinks w w1"
  "shrinks w (clearInterval ho w1) = shrinks w w1"
  "shrinks w (socket_leave s rid w1) = shrinks w w1"
  "shrinks w (w1\<lparr>timeouts := c\<rparr>) = shrinks w w1"
  "shrinks w (w1\<lparr>intervals := c\<rparr>) = shrinks w w1"
  "shrinks w (w1\<lparr>nextHandle := n\<rparr>) = shrinks w w1"
  "shrinks w (w1\<lparr>starting := l\<rparr>) = shrinks w w1"
  by (simp_all add: shrinks_def)

lemma shrinks_step: "shrinks w1 w2 \<Longrightarrow> shrinks w w1 \<Longrightarrow> shrinks w w2"
  by (rule shrinks_trans)

lemma shrinks_updSocket:
  assumes "\<And>d. data_user (f d) = data_user d" and "\<And>d. data_roomId (f d) = data_roomId d"
    and "shrinks w w1"
  shows "shrinks w (updSocket s f w1)"
proof -
  have "conn (updSocket s f w1) = conn w1"
    using assms(1,2) by (auto simp: conn_updSocket conn_def fun_eq_iff split: option.splits)
  then have "shrinks w1 (updSocket s f w1)"
    by (auto simp: shrinks_def intro: exI [of _ "\<lambda>_. True"])
  then show ?thesis using assms(3) by (rule shrinks_step)
qed

lemma shrinks_updRoom:
  assumes "\<And>rm. map userName (users (g rm)) = map userName (users rm)" and "shrinks w w1"
  shows "shrinks w (updRoom rid g w1)"
proof -
  have "members (updRoom rid g w1) r = members w1 r" for r
    unfolding members_updRoom using assms(1) by (auto simp: members_def split: option.splits)
  then have "shrinks w1 (updRoom rid g w1)"
    by (auto simp: shrinks_def intro: exI [of _ "\<lambda>_. True"])
  then show ?thesis using assms(2) by (rule shrinks_step)
qed

lemma shrinks_exitRoom:
  assumes "shrinks w w1"
  shows "shrinks w (snd (roomsService_exitRoom rid name w1))"
proof -
  have "\<exists>P. members (snd (roomsService_exitRoom rid name w1)) r = filter P (members w1 r)" for r
    by (cases "rid = Some r")
      (auto simp: members_exitRoom intro: exI [of _ "\<lambda>_. True"])
  then have "shrinks w1 (snd (roomsService_exitRoom rid name w1))"
    by (simp add: shrinks_def)
  then show ?thesis using assms by (rule shrinks_step)
qed

lemma shrinks_switchReady:
  "shrinks w w1 \<Longrightarrow> shrinks w (snd (roomsService_switchReady rid name w1))"
  by (auto simp: roomsService_switchReady_def comp_def split: option.splits
      intro!: shrinks_updRoom)

lemma shrinks_useItem:
  "shrinks w w1 \<Longrightarrow> shrinks w (snd (roomsService_useItem rid name it w1))"
  by (auto simp: roomsService_useItem_def comp_def split: option.splits intro!: shrinks_updRoom)

lemma shrinks_assignItem:
  "shrinks w w1 \<Longrightarrow> shrinks w (roomsService_assignItem rid name it w1)"
  by (auto simp: roomsService_assignItem_def comp_def intro!: shrinks_updRoom)

lemma shrinks_setTimer: "shrinks w w1 \<Longrightarrow> shrinks w (roomsService_setTimer rid h w1)"
  by (auto simp: roomsService_setTimer_def intro!: shrinks_updRoom)

lemma shrinks_setItemCreator:
  "shrinks w w1 \<Longrightarrow> shrinks w (roomsService_setItemCreator rid h w1)"
  by (auto simp: roomsService_setItemCreator_def intro!: shrinks_updRoom)

lemma shrinks_gameOver: "shrinks w w1 \<Longrightarrow> shrinks w (roomsService_gameOver rid w1)"
  by (auto simp: roomsService_gameOver_def split: option.splits intro!: shrinks_updRoom)

lemma shrinks_changeRoomState:
  "roomsService_changeRoomState rid st w1 = Inr w2 \<Longrightarrow> shrinks w w1 \<Longrightarrow> shrinks w w2"
  by (auto simp: roomsService_changeRoomState_def split: option.splits if_splits
      intro!: shrinks_updRoom)

lemma shrinks_roundEnd: "shrinks w w1 \<Longrightarrow> shrinks w (roundEnd rid w1)"
  by (simp add: roundEnd_def shrinks_gameOver)

lemmas shrinks_intros =
  shrinks_roundEnd shrinks_exitRoom shrinks_switchReady shrinks_useItem shrinks_assignItem
  shrinks_setTimer shrinks_setItemCreator shrinks_gameOver

lemma shrinks_exitLobby: "shrinks w (snd (exitLobby c w))"
  by (auto simp: exitLobby_def split: option.splits prod.splits
      intro!: shrinks_intros shrinks_updSocket)

lemma shrinks_exitRoom_handler: "shrinks w (snd (exitRoom c w))"
  by (auto simp: exitRoom_def Let_def case_prod_beta split: option.splits
      intro!: shrinks_intros)

lemma shrinks_ready: "shrinks w (snd (ready_handler c w))"
  by (auto simp: ready_handler_def Let_def case_prod_beta split: option.splits
      intro!: shrinks_intros)

lemma shrinks_start: "shrinks w w1 \<Longrightarrow> shrinks w (snd (start rid ps w1))"
  by (auto simp: start_def Let_def split: sum.splits
      intro!: shrinks_intros intro: shrinks_changeRoomState)

lemma shrinks_useItem_handler: "shrinks w (snd (useItem c it w))"
  by (auto simp: useItem_def Let_def case_prod_beta split: option.splits
      intro!: shrinks_intros)

lemma shrinks_pass: "shrinks w (snd (pass c w))"
  by (auto simp: pass_def Let_def split: option.splits intro!: shrinks_intros shrinks_updSocket)

lemma shrinks_fireTimeout: "shrinks w (fireTimeout h w)"
  by (auto simp: fireTimeout_def split: option.splits intro!: shrinks_intros)

lemma shrinks_createItem_each:
  "shrinks w w1 \<Longrightarrow> shrinks w (snd (createItem_each rid pick sids w1))"
  by (simp add: createItem_each_throws)

lemma shrinks_createItem: "shrinks w (snd (createItem rid pick w))"
  by (simp add: createItem_def shrinks_createItem_each)

lemma shrinks_createRoom:
  "rooms w newId = None \<Longrightarrow> shrinks w (snd (createRoom c nm cap newId w))"
  by (auto simp: createRoom_def Let_def roomsService_createRoom_def shrinks_def members_def
      conn_def split: option.splits intro: exI [of _ "\<lambda>_. True"])

lemma membership_inv_emit [simp]: "membership_inv (emit t e w) = membership_inv w"
proof -
  have "roomOf (emit t e w) = roomOf w" by (rule roomOf_cong) simp_all
  then show ?thesis by (simp add: membership_inv_conn)
qed

lemma enterRoom_service_effect:
  assumes "roomsService_enterRoom (Some r) prev m w = Inr w1"
  shows "members w1 r' =
           (if prev = Some r' then filter (\<lambda>u. u \<noteq> userName m) (members w r') else members w r') @
           (if r' = r then [userName m] else [])"
    and "socketIds w1 = socketIds w" and "sockets w1 = sockets w"
    and "handshaking w1 = handshaking w"
proof -
  from assms obtain rm where rm: "rooms w r = Some rm"
    and w1: "w1 = updRoom (Some r) (\<lambda>x. x\<lparr>users := users x @ [m]\<rparr>)
                    (updRoom prev (removeUser (userName m)) w)"
    by (auto simp: roomsService_enterRoom_def split: option.splits if_splits)
  show "socketIds w1 = socketIds w" and "sockets w1 = sockets w"
    and "handshaking w1 = handshaking w"
    by (simp_all add: w1)
  show "members w1 r' =
           (if prev = Some r' then filter (\<lambda>u. u \<noteq> userName m) (members w r') else members w r') @
           (if r' = r then [userName m] else [])"
    using rm unfolding w1 members_updRoom
    by (auto simp: members_def updRoom_def removeUser_def filter_map comp_def
        split: option.splits)
qed

lemma inv_enter_world:
  assumes inv: "membership_inv w" and cu: "clientUser w c = Some (d, name)"
    and en: "roomsService_enterRoom (Some r) (data_roomId d) m w = Inr w1"
    and nm: "userName m = name"
    and f: "\<And>x. data_user (f x) = data_user x" "\<And>x. data_roomId (f x) = Some r"
  shows "membership_inv (updSocket c f w1)"
proof (rule inv_enter [OF inv, where c = c and name = name and prev = "data_roomId d" and r = r])
  from cu show "conn w c = Some (Some name, data_roomId d)"
    by (auto simp: clientUser_def conn_def split: option.splits)
  show "members (updSocket c f w1) r' =
          (if data_roomId d = Some r' then filter (\<lambda>u. u \<noteq> name) (members w r') else members w r') @
          (if r' = r then [name] else [])" for r'
    using enterRoom_service_effect(1) [OF en, of r'] by (simp add: nm)
  show "socketIds (updSocket c f w1) = socketIds w"
    using enterRoom_service_effect(2) [OF en] by simp
  show "handshaking (updSocket c f w1) = handshaking w"
    using enterRoom_service_effect(4) [OF en] by simp
  show "conn (updSocket c f w1) = (conn w)(c \<mapsto> (Some name, Some r))"
    using cu enterRoom_service_effect(3) [OF en]
    by (auto simp: conn_updSocket f clientUser_def conn_def fun_eq_iff split: option.splits)
qed

lemma inv_enterLobby:
  assumes "membership_inv w"
  shows "membership_inv (snd (enterLobby c w))"
proof (cases "clientUser w c")
  case None
  with assms show ?thesis by (simp add: enterLobby_def)
next
  case (Some p)
  obtain d name where p: "p = (d, name)" by (cases p)
  let ?m = "\<lparr>socketId = c, userName = name, ready = False, passed = Some False, itemList = []\<rparr>"
  show ?thesis
  proof (cases "roomsService_enterRoom (Some LOBBY_ID) (data_roomId d) ?m w")
    case (Inl e)
    with Some p assms show ?thesis by (simp add: enterLobby_def)
  next
    case (Inr w1)
    have "membership_inv
            (updSocket c (\<lambda>x. x\<lparr>joined := insert LOBBY_ID (joined x),
                                 data_roomId := Some LOBBY_ID\<rparr>) w1)"
      using assms Some [unfolded p] Inr
      by (rule inv_enter_world
          [where f = "\<lambda>x. x\<lparr>joined := insert LOBBY_ID (joined x),
                                data_roomId := Some LOBBY_ID\<rparr>"]) simp_all
    with Some p Inr show ?thesis by (simp add: enterLobby_def)
  qed
qed

lemma inv_enterRoom:
  assumes "membership_inv w"
  shows "membership_inv (snd (enterRoom c r w))"
proof (cases "clientUser w c")
  case None
  with assms show ?thesis by (simp add: enterRoom_def)
next
  case (Some p)
  obtain d name where p: "p = (d, name)" by (cases p)
  let ?m = "\<lparr>socketId = c, userName = name, ready = False, passed = None, itemList = []\<rparr>"
  show ?thesis
  proof (cases "roomsService_enterRoom (Some r) (data_roomId d) ?m w")
    case (Inl e)
    with Some p assms show ?thesis by (simp add: enterRoom_def)
  next
    case (Inr w1)
    have "membership_inv
            (updSocket c (\<lambda>x. x\<lparr>joined := insert r (joined x), data_roomId := Some r\<rparr>) w1)"
      using assms Some [unfolded p] Inr
      by (rule inv_enter_world
          [where f = "\<lambda>x. x\<lparr>joined := insert r (joined x), data_roomId := Some r\<rparr>"])
        simp_all
    with Some p Inr show ?thesis
      by (simp add: enterRoom_def Let_def split: option.splits)
  qed
qed

lemma inv_service_kick:
  assumes "membership_inv w"
  shows "membership_inv (snd (roomsService_kick rid by tgt w))"
proof (cases "fst (roomsService_kick rid by tgt w) = Success")
  case False
  then have "snd (roomsService_kick rid by tgt w) = w"
    by (auto simp: roomsService_kick_def split: option.splits if_splits)
  with assms show ?thesis by simp
next
  case True
  then obtain r0 rm where r0: "rid = Some r0" "rooms w r0 = Some rm"
      "tgt \<in> userName ` set (users rm)"
    by (auto simp: roomsService_kick_def roomsService_getGameRoom_def
        split: option.splits if_splits)
  then have tgt: "tgt \<in> set (members w r0)" by (simp add: members_def)
  let ?E = "snd (roomsService_exitRoom rid tgt w)"
  from True have w1: "snd (roomsService_kick rid by tgt w) =
      (case socketIds w tgt of
         None \<Rightarrow> ?E
       | Some s \<Rightarrow> updSocket s (\<lambda>d. d\<lparr>data_roomId := None\<rparr>) ?E)"
    by (auto simp: roomsService_kick_def split: option.splits if_splits)
  show ?thesis
  proof (rule inv_kick [OF assms tgt])
    show "members (snd (roomsService_kick rid by tgt w)) r' =
            (if r' = r0 then filter (\<lambda>u. u \<noteq> tgt) (members w r') else members w r')" for r'
      unfolding w1 by (auto simp: members_exitRoom r0 split: option.splits)
    show "socketIds (snd (roomsService_kick rid by tgt w)) = socketIds w"
      unfolding w1 by (simp split: option.splits)
    show "handshaking (snd (roomsService_kick rid by tgt w)) = handshaking w"
      unfolding w1 by (simp split: option.splits)
    show "conn (snd (roomsService_kick rid by tgt w)) =
            (case socketIds w tgt of
               None \<Rightarrow> conn w
             | Some t \<Rightarrow>
                 (case conn w t of
                    None \<Rightarrow> conn w
                  | Some p \<Rightarrow> (conn w)(t \<mapsto> (fst p, None))))"
    proof (cases "socketIds w tgt")
      case None
      then show ?thesis unfolding w1 by simp
    next
      case (Some t)
      then show ?thesis
        unfolding w1 by (cases "sockets w t") (simp_all add: conn_updSocket conn_def [of w t])
    qed
  qed
qed

lemma kick_world:
  "clientUser w c = Some (d, name) \<Longrightarrow>
   snd (kick c tgt w) = snd (roomsService_kick (data_roomId d) name tgt w)"
  by (simp add: kick_def Let_def case_prod_beta socket_def)

lemma inv_kick_handler:
  assumes "membership_inv w"
  shows "membership_inv (snd (kick c tgt w))"
proof (cases "clientUser w c")
  case None
  with assms show ?thesis by (simp add: kick_def)
next
  case (Some p)
  obtain d name where p: "p = (d, name)" by (cases p)
  from Some p have "snd (kick c tgt w) = snd (roomsService_kick (data_roomId d) name tgt w)"
    by (simp add: kick_world)
  with inv_service_kick [OF assms] show ?thesis by simp
qed

lemma inv_socket_disconnect:
  assumes inv: "membership_inv w" and live: "sockets w s = Some d"
  shows "membership_inv (socket_disconnect s w)"
proof -
  let ?w' = "(handleDisconnect s w)\<lparr>sockets := (sockets (handleDisconnect s w))(s := None)\<rparr>"
  have sd: "socket_disconnect s w = ?w'"
    using live by (simp add: socket_disconnect_def)
  have "membership_inv ?w'"
  proof (cases "data_user d")
    case None
    with live have hd: "handleDisconnect s w = w"
      by (simp add: handleDisconnect_def clientUser_def)
    show ?thesis
      unfolding hd
    proof (rule inv_forget_guest [OF inv])
      show "conn w s = Some (None, data_roomId d)" using live None by (simp add: conn_def)
    qed (auto simp: conn_def fun_eq_iff)
  next
    case (Some name)
    let ?E = "snd (roomsService_exitRoom (data_roomId d) name w)"
    have hd: "members (handleDisconnect s w) = members ?E"
      "socketIds (handleDisconnect s w) = (socketIds w)(name := None)"
      "sockets (handleDisconnect s w) = sockets w"
      "handshaking (handleDisconnect s w) = handshaking w"
      using live Some
      by (simp_all add: handleDisconnect_def clientUser_def Let_def
          roomsService_deleteSocketId_def)
    show ?thesis
    proof (rule inv_disconnect [OF inv])
      show "conn w s = Some (Some name, data_roomId d)" using live Some by (simp add: conn_def)
      show "members ?w' r' =
              (if data_roomId d = Some r' then filter (\<lambda>u. u \<noteq> name) (members w r')
               else members w r')" for r'
        by (simp add: hd members_exitRoom)
      show "socketIds ?w' = (socketIds w)(name := None)"
        by (simp add: hd)
      show "conn ?w' = (conn w)(s := None)"
        by (auto simp: conn_def hd fun_eq_iff)
      show "handshaking ?w' = handshaking w"
        by (simp add: hd)
    qed
  qed
  then show ?thesis by (simp add: sd)
qed

lemma inv_socket_disconnect_any:
  assumes "membership_inv w"
  shows "membership_inv (socket_disconnect s w)"
proof (cases "sockets w s")
  case None
  with assms show ?thesis by (simp add: socket_disconnect_def)
next
  case (Some d)
  with assms show ?thesis by (rule inv_socket_disconnect)
qed

lemma inv_drop_handshake:
  assumes "membership_inv w"
  shows "membership_inv (w\<lparr>handshaking := remove1 s (handshaking w)\<rparr>)"
proof -
  have "roomOf (w\<lparr>handshaking := remove1 s (handshaking w)\<rparr>) = roomOf w"
    by (rule roomOf_cong) simp_all
  moreover have "set (remove1 s (handshaking w)) \<subseteq> set (handshaking w)"
    by (rule set_remove1_subset)
  ultimately show ?thesis
    using assms unfolding membership_inv_conn by (auto simp: distinct_remove1)
qed

lemma inv_connect_step:
  assumes inv: "membership_inv w" and fresh: "sockets w s = None"
    and nh: "s \<notin> set (handshaking w)"
  shows "membership_inv (handleConnection s hs (w\<lparr>sockets := (sockets w)(s \<mapsto> newSocket)\<rparr>))"
proof -
  let ?w0 = "w\<lparr>sockets := (sockets w)(s \<mapsto> newSocket)\<rparr>"
  have c0: "conn w s = None" using fresh by (simp add: conn_def)
  have restored: "socket_disconnect s (emit t e ?w0) = emit t e w" for t e
    using fresh fun_upd_idem [of "sockets w" s None]
    by (simp add: socket_disconnect_def handleDisconnect_def clientUser_def newSocket_def
        emit_def)
  show ?thesis
  proof (cases hs)
    case NoToken
    then show ?thesis using inv by (simp add: handleConnection_def restored)
  next
    case InvalidToken
    then show ?thesis using inv by (simp add: handleConnection_def restored)
  next
    case TokenVerified
    show ?thesis
    proof (rule inv_new_socket [OF inv c0 nh])
      show "members (handleConnection s hs ?w0) r' = members w r'" for r'
        using TokenVerified by (simp add: handleConnection_def)
      show "socketIds (handleConnection s hs ?w0) = socketIds w"
        using TokenVerified by (simp add: handleConnection_def)
      show "conn (handleConnection s hs ?w0) = (conn w)(s \<mapsto> (None, None))"
        using TokenVerified
        by (auto simp: handleConnection_def conn_def newSocket_def fun_eq_iff)
      show "handshaking (handleConnection s hs ?w0) = handshaking w @ [s]"
        using TokenVerified by (simp add: handleConnection_def)
    qed
  qed
qed

lemma inv_resume_step:
  assumes inv: "membership_inv w" and sh: "s \<in> set (handshaking w)"
  shows "membership_inv
           (handleConnection_resume s found (w\<lparr>handshaking := remove1 s (handshaking w)\<rparr>))"
proof -
  let ?w0 = "w\<lparr>handshaking := remove1 s (handshaking w)\<rparr>"
  have inv0: "membership_inv ?w0" using inv by (rule inv_drop_handshake)
  from inv have "distinct (handshaking w)" by (simp add: membership_inv_def)
  then have nh: "s \<notin> set (handshaking ?w0)" by simp
  have nouser: "data_user d = None" if "sockets w s = Some d" for d
    using inv sh that unfolding membership_inv_def by blast
  have fail: "membership_inv (socket_disconnect s (emit t e ?w0))" for t e
    using inv0 by (simp add: inv_socket_disconnect_any)
  show ?thesis
  proof (cases found)
    case None
    then show ?thesis by (simp add: handleConnection_resume_def fail)
  next
    case (Some name)
    show ?thesis
    proof (cases "socketIds w name")
      case (Some t)
      with \<open>found = Some name\<close> show ?thesis
        by (simp add: handleConnection_resume_def roomsService_isConnectedUser_def fail)
    next
      case None
      let ?w' = "handleConnection_resume s found ?w0"
      have w': "?w' = roomsService_registerSocketId name s
                        (updSocket s (\<lambda>d. d\<lparr>data_user := Some name\<rparr>) ?w0)"
        using None \<open>found = Some name\<close>
        by (simp add: handleConnection_resume_def roomsService_isConnectedUser_def)
      have new: "socketIds ?w0 name = None" using None by simp
      have m: "members ?w' r' = members ?w0 r'" for r'
        by (simp add: w' roomsService_registerSocketId_def)
      have si: "socketIds ?w' = (socketIds ?w0)(name \<mapsto> s)"
        by (simp add: w' roomsService_registerSocketId_def)
      have h: "handshaking ?w' = handshaking ?w0"
        by (simp add: w' roomsService_registerSocketId_def)
      show ?thesis
      proof (cases "sockets w s")
        case None
        then have gone: "conn ?w0 s = None" by (simp add: conn_def)
        have c: "conn ?w' = conn ?w0"
          using \<open>sockets w s = None\<close>
          by (simp add: w' roomsService_registerSocketId_def conn_updSocket)
        from inv0 gone new m si c h show ?thesis by (rule inv_register_gone)
      next
        case (Some d)
        with nouser have cu: "conn ?w0 s = Some (None, data_roomId d)"
          by (simp add: conn_def)
        have c: "conn ?w' = (conn ?w0)(s \<mapsto> (Some name, data_roomId d))"
          using Some by (simp add: w' roomsService_registerSocketId_def conn_updSocket)
        from inv0 cu nh new m si c h show ?thesis by (rule inv_bind)
      qed
    qed
  qed
qed

lemma step_inv:
  assumes "membership_inv w"
  shows "membership_inv (step a w)"
proof (cases a)
  case (Connect s hs)
  with assms show ?thesis by (auto simp: inv_connect_step)
next
  case (UserArrives s found)
  with assms show ?thesis by (auto simp: inv_resume_step)
next
  case (Disconnect s)
  with assms show ?thesis by (simp add: inv_socket_disconnect_any)
next
  case (EnterLobby c)
  with assms show ?thesis by (simp add: inv_enterLobby)
next
  case (ExitLobby c)
  with shrinks_inv [OF shrinks_exitLobby assms] show ?thesis by simp
next
  case (CreateRoom c nm cap newId)
  with assms shrinks_inv [OF shrinks_createRoom assms] show ?thesis by auto
next
  case (EnterRoom c r)
  with assms show ?thesis by (simp add: inv_enterRoom)
next
  case (ExitRoom c)
  with shrinks_inv [OF shrinks_exitRoom_handler assms] show ?thesis by simp
next
  case (Ready c)
  with shrinks_inv [OF shrinks_ready assms] show ?thesis by simp
next
  case (ProblemsArrive rid ps)
  have "shrinks w (snd (start rid ps (w\<lparr>starting := remove1 rid (starting w)\<rparr>)))"
    by (rule shrinks_start) simp
  from shrinks_inv [OF this assms] ProblemsArrive assms show ?thesis by simp
next
  case (Kick c tgt)
  with assms show ?thesis by (simp add: inv_kick_handler)
next
  case (UseItem c it)
  with shrinks_inv [OF shrinks_useItem_handler assms] show ?thesis by simp
next
  case (Pass c)
  with shrinks_inv [OF shrinks_pass assms] show ?thesis by simp
next
  case (TimeoutFires h)
  with shrinks_inv [OF shrinks_fireTimeout assms] show ?thesis by simp
next
  case (IntervalFires h pick)
  with assms shrinks_inv [OF shrinks_createItem assms] show ?thesis
    by (simp split: option.splits)
qed

lemma init_inv: "membership_inv init"
  by (simp add: membership_inv_def init_def members_def)

lemma run_inv: "membership_inv w \<Longrightarrow> membership_inv (run as w)"
  by (induction as arbitrary: w) (simp_all add: step_inv)

lemma run_snoc: "run (as @ [a]) w = step a (run as w)"
  by (induction as arbitrary: w) simp_all

lemma member_of_one_room:
  assumes "membership_inv w" and "u \<in> set (members w r)" and "u \<in> set (members w r')"
  shows "r = r'"
proof -
  from assms have "roomOf w u = Some r" and "roomOf w u = Some r'"
    unfolding membership_inv_def by blast+
  then show ?thesis by simp
qed

lemma member_bound:
  assumes inv: "membership_inv w" and cu: "clientUser w c = Some (d, name)"
    and mem: "name \<in> set (members w r')"
  shows "data_roomId d = Some r'"
proof -
  from cu have live: "sockets w c = Some d" "data_user d = Some name"
    by (auto simp: clientUser_def split: option.splits)
  with inv have "socketIds w name = Some c" unfolding membership_inv_def by blast
  with live have "roomOf w name = data_roomId d" by (simp add: roomOf_def)
  moreover from inv mem have "roomOf w name = Some r'" unfolding membership_inv_def by blast
  ultimately show ?thesis by simp
qed

lemma filter_absent: "x \<notin> set xs \<Longrightarrow> filter (\<lambda>u. u \<noteq> x) xs = xs"
  by (induction xs) auto

lemma members_elsewhere:
  assumes "membership_inv w" and "clientUser w c = Some (d, name)"
    and "data_roomId d \<noteq> Some r'"
  shows "filter (\<lambda>u. u \<noteq> name) (members w r') = members w r'"
  using member_bound [OF assms(1,2), of r'] assms(3) by (auto intro: filter_absent)

lemma effect_enter:
  assumes inv: "membership_inv w" and cu: "clientUser w c = Some (d, name)"
    and en: "roomsService_enterRoom (Some r) (data_roomId d) m w = Inr w1"
    and nm: "userName m = name"
  shows "members w1 r' =
           filter (\<lambda>u. u \<noteq> name) (members w r') @ (if r' = r then [name] else [])"
proof (cases "data_roomId d = Some r'")
  case True
  with enterRoom_service_effect(1) [OF en, of r'] show ?thesis by (simp add: nm)
next
  case False
  with enterRoom_service_effect(1) [OF en, of r'] members_elsewhere [OF inv cu False]
  show ?thesis by (simp add: nm)
qed

lemma effect_enterRoom:
  assumes inv: "membership_inv w" and cu: "clientUser w c = Some (d, name)"
    and ok: "fst (enterRoom c r w) = AckRoom Success (Some r)"
  shows "members (snd (enterRoom c r w)) r' =
           filter (\<lambda>u. u \<noteq> name) (members w r') @ (if r' = r then [name] else [])"
proof -
  let ?m = "\<lparr>socketId = c, userName = name, ready = False, passed = None, itemList = []\<rparr>"
  from ok cu obtain w1 where en: "roomsService_enterRoom (Some r) (data_roomId d) ?m w = Inr w1"
    by (cases "roomsService_enterRoom (Some r) (data_roomId d) ?m w") (auto simp: enterRoom_def)
  have "members (snd (enterRoom c r w)) = members w1"
    using cu en by (simp add: enterRoom_def Let_def split: option.splits)
  with effect_enter [OF inv cu en, of r'] show ?thesis by simp
qed

lemma effect_enterLobby:
  assumes inv: "membership_inv w" and cu: "clientUser w c = Some (d, name)"
    and ok: "fst (enterLobby c w) = Ack Success"
  shows "members (snd (enterLobby c w)) r' =
           filter (\<lambda>u. u \<noteq> name) (members w r') @ (if r' = LOBBY_ID then [name] else [])"
proof -
  let ?m = "\<lparr>socketId = c, userName = name, ready = False, passed = Some False,
             itemList = []\<rparr>"
  from ok cu obtain w1
    where en: "roomsService_enterRoom (Some LOBBY_ID) (data_roomId d) ?m w = Inr w1"
    by (cases "roomsService_enterRoom (Some LOBBY_ID) (data_roomId d) ?m w")
      (auto simp: enterLobby_def)
  have "members (snd (enterLobby c w)) = members w1"
    using cu en by (simp add: enterLobby_def)
  with effect_enter [OF inv cu en, of r'] show ?thesis by simp
qed

lemma effect_exitRoom:
  assumes inv: "membership_inv w" and cu: "clientUser w c = Some (d, name)"
  shows "members (snd (exitRoom c w)) r' = filter (\<lambda>u. u \<noteq> name) (members w r')"
proof -
  have "members (snd (exitRoom c w)) r' =
          members (snd (roomsService_exitRoom (data_roomId d) name w)) r'"
    using cu by (simp add: exitRoom_def Let_def case_prod_beta)
  with members_elsewhere [OF inv cu, of r'] show ?thesis
    by (simp add: members_exitRoom)
qed

lemma effect_exitLobby:
  assumes cu: "clientUser w c = Some (d, name)"
  shows "members (snd (exitLobby c w)) r' =
           (if r' = LOBBY_ID then filter (\<lambda>u. u \<noteq> name) (members w r') else members w r')"
  using cu by (auto simp: exitLobby_def members_exitRoom)

lemma effect_disconnect:
  assumes inv: "membership_inv w" and cu: "clientUser w s = Some (d, name)"
  shows "members (handleDisconnect s w) r' = filter (\<lambda>u. u \<noteq> name) (members w r')"
    and "socketIds (handleDisconnect s w) name = None"
proof -
  have "members (handleDisconnect s w) r' =
          members (snd (roomsService_exitRoom (data_roomId d) name w)) r'"
    using cu by (simp add: handleDisconnect_def Let_def roomsService_deleteSocketId_def)
  with members_elsewhere [OF inv cu, of r']
  show "members (handleDisconnect s w) r' = filter (\<lambda>u. u \<noteq> name) (members w r')"
    by (simp add: members_exitRoom)
  show "socketIds (handleDisconnect s w) name = None"
    using cu by (simp add: handleDisconnect_def Let_def roomsService_deleteSocketId_def)
qed

lemma effect_kick:
  assumes inv: "membership_inv w" and cu: "clientUser w c = Some (d, name)"
  shows "members (snd (kick c tgt w)) r' =
           (case data_roomId d of
              None \<Rightarrow> members w r'
            | Some rc \<Rightarrow>
                if name \<in> set (members w rc) \<and> tgt \<in> set (members w rc)
                then filter (\<lambda>u. u \<noteq> tgt) (members w r') else members w r')"
proof (cases "data_roomId d")
  case None
  then show ?thesis
    using cu by (simp add: kick_world roomsService_kick_def roomsService_getGameRoom_def)
next
  case (Some rc)
  show ?thesis
  proof (cases "name \<in> set (members w rc) \<and> tgt \<in> set (members w rc)")
    case False
    then have "snd (roomsService_kick (Some rc) name tgt w) = w"
      by (auto simp: roomsService_kick_def roomsService_getGameRoom_def members_def
          split: option.splits)
    with False Some cu show ?thesis by (auto simp: kick_world)
  next
    case True
    then obtain rm where rm: "rooms w rc = Some rm"
      by (cases "rooms w rc") (simp_all add: members_def)
    with True have "members (snd (roomsService_kick (Some rc) name tgt w)) r' =
        members (snd (roomsService_exitRoom (Some rc) tgt w)) r'"
      by (auto simp: roomsService_kick_def roomsService_getGameRoom_def members_def
          split: option.splits)
    moreover have "filter (\<lambda>u. u \<noteq> tgt) (members w r') = members w r'" if "r' \<noteq> rc"
    proof -
      from True have "tgt \<in> set (members w rc)" by simp
      with member_of_one_room [OF inv, of tgt r' rc] that
      have "tgt \<notin> set (members w r')" by blast
      then show ?thesis by (rule filter_absent)
    qed
    ultimately show ?thesis
      using True Some cu by (auto simp: kick_world members_exitRoom)
  qed
qed

text \<open>
  Claim C7. In every world that a sequence of actions (connections, disconnections,
  entering and leaving the Lobby and rooms, kicks and all the others) reaches from the
  start, the member count of every room is the number of distinct identities in its
  membership and no identity is a member of two rooms. In such a world the operations
  change the membership as follows, for the user of an authenticated connection: a
  successful \<^verbatim>\<open>enter_room\<close> or \<^verbatim>\<open>enter_lobby\<close> removes the user from every room and
  adds it to the room entered, in one step; \<^verbatim>\<open>exit_room\<close> and the disconnection
  remove the user from every room, the disconnection also from the registry;
  \<^verbatim>\<open>exit_lobby\<close> removes the user from the Lobby; \<^verbatim>\<open>kick\<close> removes the target from
  every room when caller and target are members of the room the caller is bound to, and
  changes no membership otherwise. The membership of every other user stays as it is.
\<close>

theorem membership_consistent:
  "(\<forall>r rm. rooms (run as init) r = Some rm \<longrightarrow>
      roomsService_roomUserCount (run as init) (Some r) =
        Some (card (userName ` set (users rm)))) \<and>
   (\<forall>u r r'. u \<in> set (members (run as init) r) \<and> u \<in> set (members (run as init) r') \<longrightarrow>
      r = r') \<and>
   (\<forall>c r d name.
      sockets (run as init) c = Some d \<and> data_user d = Some name \<and>
      fst (enterRoom c r (run as init)) = AckRoom Success (Some r) \<longrightarrow>
      (\<forall>r'. name \<in> set (members (snd (enterRoom c r (run as init))) r') \<longleftrightarrow> r' = r)) \<and>
   (\<forall>c r d name.
      sockets (run as init) c = Some d \<and> data_user d = Some name \<and>
      fst (enterRoom c r (run as init)) = AckRoom Success (Some r) \<longrightarrow>
      (\<forall>r'. members (snd (enterRoom c r (run as init))) r' =
             filter (\<lambda>u. u \<noteq> name) (members (run as init) r') @
             (if r' = r then [name] else []))) \<and>
   (\<forall>c d name.
      sockets (run as init) c = Some d \<and> data_user d = Some name \<and>
      fst (enterLobby c (run as init)) = Ack Success \<longrightarrow>
      (\<forall>r'. members (snd (enterLobby c (run as init))) r' =
             filter (\<lambda>u. u \<noteq> name) (members (run as init) r') @
             (if r' = LOBBY_ID then [name] else []))) \<and>
   (\<forall>c d name.
      sockets (run as init) c = Some d \<and> data_user d = Some name \<longrightarrow>
      (\<forall>r'. members (snd (exitRoom c (run as init))) r' =
             filter (\<lambda>u. u \<noteq> name) (members (run as init) r'))) \<and>
   (\<forall>c d name.
      sockets (run as init) c = Some d \<and> data_user d = Some name \<longrightarrow>
      (\<forall>r'. members (snd (exitLobby c (run as init))) r' =
             (if r' = LOBBY_ID then filter (\<lambda>u. u \<noteq> name) (members (run as init) r')
              else members (run as init) r'))) \<and>
   (\<forall>c d name.
      sockets (run as init) c = Some d \<and> data_user d = Some name \<longrightarrow>
      socketIds (handleDisconnect c (run as init)) name = None \<and>
      (\<forall>r'. members (handleDisconnect c (run as init)) r' =
             filter (\<lambda>u. u \<noteq> name) (members (run as init) r'))) \<and>
   (\<forall>c d name tgt.
      sockets (run as init) c = Some d \<and> data_user d = Some name \<longrightarrow>
      (\<forall>r'. members (snd (kick c tgt (run as init))) r' =
             (case data_roomId d of
                None \<Rightarrow> members (run as init) r'
              | Some rc \<Rightarrow>
                  if name \<in> set (members (run as init) rc) \<and>
                     tgt \<in> set (members (run as init) rc)
                  then filter (\<lambda>u. u \<noteq> tgt) (members (run as init) r')
                  else members (run as init) r')))"
proof (intro conjI allI impI)
  let ?W = "run as init"
  have inv: "membership_inv ?W" by (rule run_inv [OF init_inv])
  have cu: "clientUser ?W c = Some (d, name)"
    if "sockets ?W c = Some d \<and> data_user d = Some name" for c d name
    using that by (simp add: clientUser_def)
  show "roomsService_roomUserCount ?W (Some r) = Some (card (userName ` set (users rm)))"
    if "rooms ?W r = Some rm" for r rm
  proof -
    from inv have "distinct (members ?W r)" by (simp add: membership_inv_def)
    with that have "distinct (map userName (users rm))" by (simp add: members_def)
    then have "card (set (map userName (users rm))) = length (map userName (users rm))"
      by (rule distinct_card)
    with that show ?thesis
      by (simp add: roomsService_roomUserCount_def roomsService_getGameRoom_def)
  qed
  show "r = r'"
    if "u \<in> set (members ?W r) \<and> u \<in> set (members ?W r')" for u r r'
    using that member_of_one_room [OF inv] by blast
  show "name \<in> set (members (snd (enterRoom c r ?W)) r') \<longleftrightarrow> r' = r"
    if h: "sockets ?W c = Some d \<and> data_user d = Some name \<and>
        fst (enterRoom c r ?W) = AckRoom Success (Some r)" for c r d name r'
  proof -
    from h have "clientUser ?W c = Some (d, name)"
      and "fst (enterRoom c r ?W) = AckRoom Success (Some r)"
      by (simp_all add: clientUser_def)
    from effect_enterRoom [OF inv this, of r'] show ?thesis by auto
  qed
  show "members (snd (enterRoom c r ?W)) r' =
          filter (\<lambda>u. u \<noteq> name) (members ?W r') @ (if r' = r then [name] else [])"
    if h: "sockets ?W c = Some d \<and> data_user d = Some name \<and>
        fst (enterRoom c r ?W) = AckRoom Success (Some r)" for c r d name r'
  proof -
    from h have "clientUser ?W c = Some (d, name)"
      and "fst (enterRoom c r ?W) = AckRoom Success (Some r)"
      by (simp_all add: clientUser_def)
    from effect_enterRoom [OF inv this, of r'] show ?thesis .
  qed
  show "members (snd (enterLobby c ?W)) r' =
          filter (\<lambda>u. u \<noteq> name) (members ?W r') @ (if r' = LOBBY_ID then [name] else [])"
    if h: "sockets ?W c = Some d \<and> data_user d = Some name \<and>
        fst (enterLobby c ?W) = Ack Success" for c d name r'
  proof -
    from h have "clientUser ?W c = Some (d, name)" and "fst (enterLobby c ?W) = Ack Success"
      by (simp_all add: clientUser_def)
    from effect_enterLobby [OF inv this, of r'] show ?thesis .
  qed
  show "members (snd (exitRoom c ?W)) r' = filter (\<lambda>u. u \<noteq> name) (members ?W r')"
    if "sockets ?W c = Some d \<and> data_user d = Some name" for c d name r'
    using effect_exitRoom [OF inv cu [OF that]] .
  show "members (snd (exitLobby c ?W)) r' =
          (if r' = LOBBY_ID then filter (\<lambda>u. u \<noteq> name) (members ?W r') else members ?W r')"
    if "sockets ?W c = Some d \<and> data_user d = Some name" for c d name r'
    using effect_exitLobby [OF cu [OF that]] .
  show "socketIds (handleDisconnect c ?W) name = None"
    if "sockets ?W c = Some d \<and> data_user d = Some name" for c d name
    using effect_disconnect(2) [OF inv cu [OF that]] .
  show "members (handleDisconnect c ?W) r' = filter (\<lambda>u. u \<noteq> name) (members ?W r')"
    if "sockets ?W c = Some d \<and> data_user d = Some name" for c d name r'
    using effect_disconnect(1) [OF inv cu [OF that]] .
  show "members (snd (kick c tgt ?W)) r' =
          (case data_roomId d of
             None \<Rightarrow> members ?W r'
           | Some rc \<Rightarrow>
               if name \<in> set (members ?W rc) \<and> tgt \<in> set (members ?W rc)
               then filter (\<lambda>u. u \<noteq> tgt) (members ?W r') else members ?W r')"
    if "sockets ?W c = Some d \<and> data_user d = Some name" for c d name tgt r'
    using effect_kick [OF inv cu [OF that]] .
qed

theorem membership_consistent_witness:
  "roomsService_roomUserCount world_two_rooms (Some ''r1'') = Some 2 \<and>
   ''C'' \<in> set (members world_two_rooms ''lobby'') \<and>
   ''C'' \<notin> set (members world_two_rooms ''r1'') \<and>
   ''C'' \<in> set (members (snd (enterRoom ''sC'' ''r2'' world_two_rooms)) ''r2'') \<and>
   ''C'' \<notin> set (members (snd (enterRoom ''sC'' ''r2'' world_two_rooms)) ''lobby'') \<and>
   members (snd (enterRoom ''sC'' ''r2'' world_two_rooms)) ''lobby'' = [] \<and>
   members (snd (enterLobby ''sA'' world_two_rooms)) ''r1'' = [''B''] \<and>
   members (snd (enterLobby ''sA'' world_two_rooms)) ''lobby'' = [''C'', ''A''] \<and>
   members (snd (exitRoom ''sA'' world_two_rooms)) ''r1'' = [''B''] \<and>
   members (snd (exitLobby ''sC'' world_two_rooms)) ''lobby'' = [] \<and>
   members (snd (exitLobby ''sA'' world_two_rooms)) ''r1'' = [''A'', ''B''] \<and>
   members (handleDisconnect ''sB'' world_two_rooms) ''r1'' = [''A''] \<and>
   socketIds (handleDisconnect ''sB'' world_two_rooms) ''B'' = None \<and>
   members (snd (kick ''sA'' ''B'' world_two_rooms)) ''r1'' = [''A''] \<and>
   members (snd (kick ''sA'' ''C'' world_two_rooms)) ''lobby'' = [''C'']"
proof -
  let ?dA = "\<lparr>data_user = Some ''A'', data_roomId = Some ''r1'', data_passed = False,
              joined = {''r1''}\<rparr>"
  let ?dB = "\<lparr>data_user = Some ''B'', data_roomId = Some ''r1'', data_passed = False,
              joined = {''r1''}\<rparr>"
  let ?dC = "\<lparr>data_user = Some ''C'', data_roomId = Some ''lobby'', data_passed = False,
              joined = {''lobby''}\<rparr>"
  let ?rm = "\<lparr>roomName = ''room'', capacity = 2, state = Waiting,
              users = [\<lparr>socketId = ''sA'', userName = ''A'', ready = False, passed = None,
                        itemList = []\<rparr>,
                       \<lparr>socketId = ''sB'', userName = ''B'', ready = False, passed = None,
                        itemList = []\<rparr>],
              timer = None, itemCreator = None\<rparr>"
  have h1: "rooms world_two_rooms ''r1'' = Some ?rm"
    unfolding world_two_rooms_def by code_simp
  have h2: "card (userName ` set (users ?rm)) = 2" by simp
  have h3: "''C'' \<in> set (members world_two_rooms ''lobby'')"
    unfolding world_two_rooms_def by code_simp
  have sA: "sockets world_two_rooms ''sA'' = Some ?dA \<and> data_user ?dA = Some ''A''"
    unfolding world_two_rooms_def by code_simp
  have sB: "sockets world_two_rooms ''sB'' = Some ?dB \<and> data_user ?dB = Some ''B''"
    unfolding world_two_rooms_def by code_simp
  have sC: "sockets world_two_rooms ''sC'' = Some ?dC \<and> data_user ?dC = Some ''C''"
    unfolding world_two_rooms_def by code_simp
  have h5: "fst (enterRoom ''sC'' ''r2'' world_two_rooms) = AckRoom Success (Some ''r2'')"
    unfolding world_two_rooms_def by code_simp
  have h6: "fst (enterLobby ''sA'' world_two_rooms) = Ack Success"
    unfolding world_two_rooms_def by code_simp
  have m1: "members world_two_rooms ''r1'' = [''A'', ''B'']"
    unfolding world_two_rooms_def by code_simp
  have m2: "members world_two_rooms ''lobby'' = [''C'']"
    unfolding world_two_rooms_def by code_simp
  note inst = membership_consistent
    [of "run_full_room @ [CreateRoom ''sC'' ''other'' 2 ''r2'']", folded world_two_rooms_def]
  note i1 = inst [THEN conjunct1, rule_format]
  note i2 = inst [THEN conjunct2, THEN conjunct1, rule_format]
  note i3 = inst [THEN conjunct2, THEN conjunct2, THEN conjunct1, rule_format]
  note i4 = inst [THEN conjunct2, THEN conjunct2, THEN conjunct2, THEN conjunct1, rule_format]
  note i5 = inst [THEN conjunct2, THEN conjunct2, THEN conjunct2, THEN conjunct2,
      THEN conjunct1, rule_format]
  note i6 = inst [THEN conjunct2, THEN conjunct2, THEN conjunct2, THEN conjunct2,
      THEN conjunct2, THEN conjunct1, rule_format]
  note i7 = inst [THEN conjunct2, THEN conjunct2, THEN conjunct2, THEN conjunct2,
      THEN conjunct2, THEN conjunct2, THEN conjunct1, rule_format]
  note i8 = inst [THEN conjunct2, THEN conjunct2, THEN conjunct2, THEN conjunct2,
      THEN conjunct2, THEN conjunct2, THEN conjunct2, THEN conjunct1, rule_format]
  note i9 = inst [THEN conjunct2, THEN conjunct2, THEN conjunct2, THEN conjunct2,
      THEN conjunct2, THEN conjunct2, THEN conjunct2, THEN conjunct2, rule_format]
  from i1 [OF h1] h2 have c1: "roomsService_roomUserCount world_two_rooms (Some ''r1'') = Some 2"
    by simp
  from i2 [of "''C''" "''lobby''" "''r1''"] h3
  have c2: "''C'' \<notin> set (members world_two_rooms ''r1'')"
    by auto
  from sC h5 have e: "sockets world_two_rooms ''sC'' = Some ?dC \<and> data_user ?dC = Some ''C'' \<and>
      fst (enterRoom ''sC'' ''r2'' world_two_rooms) = AckRoom Success (Some ''r2'')"
    by simp
  from i3 [OF e]
  have c3: "''C'' \<in> set (members (snd (enterRoom ''sC'' ''r2'' world_two_rooms)) ''r2'')"
    "''C'' \<notin> set (members (snd (enterRoom ''sC'' ''r2'' world_two_rooms)) ''lobby'')"
    by simp_all
  from i4 [OF e, of "''lobby''"] m2
  have c4: "members (snd (enterRoom ''sC'' ''r2'' world_two_rooms)) ''lobby'' = []"
    by simp
  from sA h6 have l: "sockets world_two_rooms ''sA'' = Some ?dA \<and> data_user ?dA = Some ''A'' \<and>
      fst (enterLobby ''sA'' world_two_rooms) = Ack Success"
    by simp
  from i5 [OF l, of "''r1''", unfolded LOBBY_ID_def]
    i5 [OF l, of "''lobby''", unfolded LOBBY_ID_def] m1 m2
  have c5: "members (snd (enterLobby ''sA'' world_two_rooms)) ''r1'' = [''B'']"
    "members (snd (enterLobby ''sA'' world_two_rooms)) ''lobby'' = [''C'', ''A'']"
    by simp_all
  from i6 [OF sA, of "''r1''"] m1
  have c6: "members (snd (exitRoom ''sA'' world_two_rooms)) ''r1'' = [''B'']"
    by simp
  from i7 [OF sC, of "''lobby''", unfolded LOBBY_ID_def]
    i7 [OF sA, of "''r1''", unfolded LOBBY_ID_def] m1 m2
  have c7: "members (snd (exitLobby ''sC'' world_two_rooms)) ''lobby'' = []"
    "members (snd (exitLobby ''sA'' world_two_rooms)) ''r1'' = [''A'', ''B'']"
    by simp_all
  from i8 [OF sB] m1
  have c8: "members (handleDisconnect ''sB'' world_two_rooms) ''r1'' = [''A'']"
    "socketIds (handleDisconnect ''sB'' world_two_rooms) ''B'' = None"
    by simp_all
  from i9 [OF sA, of "''B''" "''r1''"] i9 [OF sA, of "''C''" "''lobby''"] m1 m2
  have c9: "members (snd (kick ''sA'' ''B'' world_two_rooms)) ''r1'' = [''A'']"
    "members (snd (kick ''sA'' ''C'' world_two_rooms)) ''lobby'' = [''C'']"
    by simp_all
  from c1 c2 c3 c4 c5 c6 c7 c8 c9 h3 show ?thesis by simp
qed

end
